theory Spec2Isabelle
  imports Main
begin

section \<open>The tabular resource\<close>

text \<open>
  The class \<open>SheetController\<close> works on a spreadsheet through the platform's objects
  (\<open>SpreadsheetApp\<close>, \<open>Spreadsheet\<close>, \<open>Sheet\<close>, \<open>Range\<close>). They are not part of the
  repository; this section fixes what the controller can observe of them.

  A cell holds a string, a number or a boolean (the types the source's own JSDoc lists for
  header values); an empty cell reads as the empty string. Numbers are integers here:
  fractions and dates are left out.
\<close>

datatype cellval = Str string | Num int | Bool bool

text \<open>JavaScript's truthiness of a cell value, as used by \<open>if(baseCell.getValue() && ...)\<close>.\<close>

fun truthy :: "cellval \<Rightarrow> bool" where
  "truthy (Str s) = (s \<noteq> [])"
| "truthy (Num n) = (n \<noteq> 0)"
| "truthy (Bool b) = b"

text \<open>A cell holds data when it is not empty.\<close>

definition hasData :: "cellval \<Rightarrow> bool" where
  "hasData v = (v \<noteq> Str [])"

record sheet =
  maxRows :: int
  maxColumns :: int
  cells :: "int \<Rightarrow> int \<Rightarrow> cellval"

definition blankCells :: "int \<Rightarrow> int \<Rightarrow> cellval" where
  "blankCells r c = Str []"

text \<open>A sheet as the platform creates it: 1000 rows, 26 columns, all empty.\<close>

definition newSheet :: sheet where
  "newSheet = \<lparr>maxRows = 1000, maxColumns = 26, cells = blankCells\<rparr>"

text \<open>The two directions of \<open>SpreadsheetApp.Direction\<close> that the source uses.\<close>

datatype direction = UP | NEXT

datatype error = BookOpenError | ColumnNotFoundError | PlatformError

text \<open>
  The world outside the controller: the spreadsheets that can be opened by id, each an
  ordered list of named sheets; the id of the active spreadsheet, if any; the name the
  platform gives to a sheet inserted without a name (or \<open>None\<close> when it rejects such a
  call); and a log of the boundary scans (\<open>getNextDataCell\<close>) issued so far, so that
  "no scan is issued" can be stated.
\<close>

type_synonym sheetRef = "string \<times> string"

record world =
  books :: "string \<Rightarrow> (string \<times> sheet) list option"
  activeBook :: "string option"
  unnamedSheet :: "string list \<Rightarrow> string option"
  scanLog :: "(direction \<times> sheetRef \<times> int \<times> int) list"

text \<open>A \<open>Range\<close> object: the sheet it belongs to and its rectangle.\<close>

record rangeH =
  rngSheet :: sheetRef
  rngRow :: int
  rngColumn :: int
  rngNumRows :: int
  rngNumColumns :: int

text \<open>Sequencing of calls that may throw: the first exception ends the computation.\<close>

definition bindE :: "error + 'a \<Rightarrow> ('a \<Rightarrow> error + 'b) \<Rightarrow> error + 'b" where
  "bindE m f = (case m of Inl e \<Rightarrow> Inl e | Inr x \<Rightarrow> f x)"

definition lookupSheet :: "world \<Rightarrow> sheetRef \<Rightarrow> error + sheet" where
  "lookupSheet w ref =
     (case books w (fst ref) of
        None \<Rightarrow> Inl PlatformError
      | Some shs \<Rightarrow> (case map_of shs (snd ref) of
                      None \<Rightarrow> Inl PlatformError
                    | Some sh \<Rightarrow> Inr sh))"

text \<open>
  \<open>Sheet.getRange(row, column, numRows, numColumns)\<close>: the platform rejects a rectangle
  that does not lie inside the grid (the spec's \<open>ResourceBoundsError\<close>).
\<close>

definition sheetGetRange :: "world \<Rightarrow> sheetRef \<Rightarrow> int \<Rightarrow> int \<Rightarrow> int \<Rightarrow> int \<Rightarrow> error + rangeH" where
  "sheetGetRange w ref r c nr nc =
     bindE (lookupSheet w ref) (\<lambda>sh.
       if 1 \<le> r \<and> 1 \<le> c \<and> 1 \<le> nr \<and> 1 \<le> nc
          \<and> r + nr - 1 \<le> maxRows sh \<and> c + nc - 1 \<le> maxColumns sh
       then Inr \<lparr>rngSheet = ref, rngRow = r, rngColumn = c, rngNumRows = nr, rngNumColumns = nc\<rparr>
       else Inl PlatformError)"

text \<open>\<open>Sheet.getMaxRows()\<close> and \<open>Sheet.getMaxColumns()\<close>.\<close>

definition getMaxRows :: "world \<Rightarrow> sheetRef \<Rightarrow> error + int" where
  "getMaxRows w ref = bindE (lookupSheet w ref) (\<lambda>sh. Inr (maxRows sh))"

definition getMaxColumns :: "world \<Rightarrow> sheetRef \<Rightarrow> error + int" where
  "getMaxColumns w ref = bindE (lookupSheet w ref) (\<lambda>sh. Inr (maxColumns sh))"

text \<open>\<open>Range.getValue()\<close>: the value of the top-left cell.\<close>

definition getValue :: "world \<Rightarrow> rangeH \<Rightarrow> error + cellval" where
  "getValue w rng =
     bindE (lookupSheet w (rngSheet rng)) (\<lambda>sh. Inr (cells sh (rngRow rng) (rngColumn rng)))"

text \<open>\<open>Range.getValues()\<close>: the rectangle as a list of rows.\<close>

definition getValues :: "world \<Rightarrow> rangeH \<Rightarrow> error + cellval list list" where
  "getValues w rng =
     bindE (lookupSheet w (rngSheet rng)) (\<lambda>sh.
       Inr (map (\<lambda>i. map (\<lambda>j. cells sh (rngRow rng + int i) (rngColumn rng + int j))
                         [0..<nat (rngNumColumns rng)])
                [0..<nat (rngNumRows rng)]))"

text \<open>
  \<open>Range.setValues(values)\<close>: the platform rejects data whose dimensions differ from the
  range's; otherwise every cell of the rectangle takes its value.
\<close>

definition putSheet :: "world \<Rightarrow> sheetRef \<Rightarrow> sheet \<Rightarrow> world" where
  "putSheet w ref sh =
     w\<lparr>books := (books w)(fst ref :=
          map_option (map (\<lambda>p. if fst p = snd ref then (fst p, sh) else p)) (books w (fst ref)))\<rparr>"

definition writeCells :: "rangeH \<Rightarrow> cellval list list \<Rightarrow> (int \<Rightarrow> int \<Rightarrow> cellval) \<Rightarrow> int \<Rightarrow> int \<Rightarrow> cellval" where
  "writeCells rng vals old r c =
     (if rngRow rng \<le> r \<and> r < rngRow rng + rngNumRows rng
         \<and> rngColumn rng \<le> c \<and> c < rngColumn rng + rngNumColumns rng
      then vals ! nat (r - rngRow rng) ! nat (c - rngColumn rng)
      else old r c)"

definition setValues :: "world \<Rightarrow> rangeH \<Rightarrow> cellval list list \<Rightarrow> error + world" where
  "setValues w rng vals =
     bindE (lookupSheet w (rngSheet rng)) (\<lambda>sh.
       if int (length vals) = rngNumRows rng
          \<and> list_all (\<lambda>row. int (length row) = rngNumColumns rng) vals
       then Inr (putSheet w (rngSheet rng) (sh\<lparr>cells := writeCells rng vals (cells sh)\<rparr>))
       else Inl PlatformError)"

text \<open>
  \<open>Range.getNextDataCell(direction)\<close> is the editor's Ctrl+arrow. Seen from the start
  cell, the cells ahead (in the direction of travel, up to the edge of the sheet) are a list
  of flags "holds data". When the start cell and the next one both hold data, the jump ends
  at the last cell of that unbroken run; otherwise it ends at the first cell ahead that
  holds data, or at the edge of the sheet when there is none. At the edge it stays put.
\<close>

fun runLength :: "bool list \<Rightarrow> nat" where
  "runLength [] = 0"
| "runLength (b # bs) = (if b then Suc (runLength bs) else 0)"

fun skipBlank :: "bool list \<Rightarrow> nat" where
  "skipBlank [] = 0"
| "skipBlank (b # bs) = (if b then 1 else Suc (skipBlank bs))"

definition jumpSteps :: "bool \<Rightarrow> bool list \<Rightarrow> nat" where
  "jumpSteps here ahead =
     (case ahead of
        [] \<Rightarrow> 0
      | b # bs \<Rightarrow> if here \<and> b then runLength ahead else skipBlank ahead)"

definition cellsAhead :: "sheet \<Rightarrow> direction \<Rightarrow> int \<Rightarrow> int \<Rightarrow> bool list" where
  "cellsAhead sh d r c =
     (case d of
        UP \<Rightarrow> map (\<lambda>i. hasData (cells sh (r - int i) c)) [1..<nat r]
      | NEXT \<Rightarrow> map (\<lambda>i. hasData (cells sh r (c + int i))) [1..<Suc (nat (maxColumns sh - c))])"

definition getNextDataCell :: "world \<Rightarrow> rangeH \<Rightarrow> direction \<Rightarrow> error + (rangeH \<times> world)" where
  "getNextDataCell w rng d =
     bindE (lookupSheet w (rngSheet rng)) (\<lambda>sh.
       let r = rngRow rng; c = rngColumn rng;
           n = int (jumpSteps (hasData (cells sh r c)) (cellsAhead sh d r c));
           w1 = w\<lparr>scanLog := scanLog w @ [(d, rngSheet rng, r, c)]\<rparr>
       in Inr (case d of
                 UP \<Rightarrow> \<lparr>rngSheet = rngSheet rng, rngRow = r - n, rngColumn = c,
                        rngNumRows = 1, rngNumColumns = 1\<rparr>
               | NEXT \<Rightarrow> \<lparr>rngSheet = rngSheet rng, rngRow = r, rngColumn = c + n,
                          rngNumRows = 1, rngNumColumns = 1\<rparr>,
               w1))"

text \<open>
  \<open>SpreadsheetApp.openById\<close>, \<open>getActiveSpreadsheet\<close>, \<open>Spreadsheet.insertSheet\<close>.
  A spreadsheet is referred to by its id.
\<close>

definition openById :: "world \<Rightarrow> string \<Rightarrow> string option" where
  "openById w bid = (case books w bid of None \<Rightarrow> None | Some shs \<Rightarrow> Some bid)"

definition insertSheet :: "world \<Rightarrow> string \<Rightarrow> string option \<Rightarrow> error + (sheetRef \<times> world)" where
  "insertSheet w bid name =
     (case books w bid of
        None \<Rightarrow> Inl PlatformError
      | Some shs \<Rightarrow>
          (case (case name of Some n \<Rightarrow> Some n | None \<Rightarrow> unnamedSheet w (map fst shs)) of
             None \<Rightarrow> Inl PlatformError
           | Some n \<Rightarrow>
               if n \<in> set (map fst shs) then Inl PlatformError
               else Inr ((bid, n), w\<lparr>books := (books w)(bid \<mapsto> shs @ [(n, newSheet)])\<rparr>)))"

section \<open>The controller\<close>

text \<open>
  \<open>SheetControllerParam\<close> and \<open>RangeAddress\<close>, as the source's typedefs give them. An
  absent property is \<open>None\<close>. (\<open>rangeName\<close> of \<open>RangeAddress\<close> is never read.)
\<close>

record param =
  p_bookId :: "string option"
  p_sheetName :: "string option"
  p_headerRow :: "int option"
  p_startColumn :: "int option"
  p_keyColumn :: "int option"

record rangeAddress =
  a_startRow :: int
  a_startColumn :: int
  a_rowNum :: "int option"
  a_columnNum :: "int option"

text \<open>
  Row and column numbers are JavaScript numbers in the source and integers here. A method
  that throws is a function that returns \<open>Inl\<close>. The methods assign to \<open>this\<close> as they
  go, so a call that throws leaves the object with the assignments made so far; that object
  is given by the companion functions \<open>..._this\<close> further down.
\<close>

text \<open>
  The properties \<open>_book\<close>, \<open>_sheetName\<close>, \<open>_sheet\<close>, \<open>_headerRow\<close>, ... of a
  \<open>SheetController\<close> object. The constructor is the only way to make one, and it returns
  only after \<open>setSheetControllerParam\<close> has set every property but possibly
  \<open>_sheetName\<close>; so an object is either fresh (\<open>None\<close> below, no property set) or has
  them all.
\<close>

record controller =
  c_book :: string
  c_sheetName :: "string option"
  c_sheet :: sheetRef
  c_headerRow :: int
  c_dataStartRow :: int
  c_startColumn :: int
  c_keyColumn :: int
  c_lastRow :: int
  c_rowNum :: int
  c_lastColumn :: int
  c_columnNum :: int
  c_header :: "cellval list"

text \<open>Truthiness of an optional string or number property (\<open>if(param.bookId)\<close>).\<close>

fun truthyS :: "string option \<Rightarrow> bool" where
  "truthyS None = False"
| "truthyS (Some s) = (s \<noteq> [])"

fun truthyN :: "int option \<Rightarrow> bool" where
  "truthyN None = False"
| "truthyN (Some n) = (n \<noteq> 0)"

text \<open>\<open>x || 1\<close> on an optional number.\<close>

definition orOne :: "int option \<Rightarrow> int" where
  "orOne x = (case x of None \<Rightarrow> 1 | Some n \<Rightarrow> if n \<noteq> 0 then n else 1)"

subsection \<open>getRange, getHeaderRange\<close>

definition getRange :: "controller \<Rightarrow> world \<Rightarrow> rangeAddress \<Rightarrow> error + rangeH" where
  "getRange this w param =
     (let startRow = a_startRow param;
          startColumn = a_startColumn param;
          rowNum = orOne (a_rowNum param);
          columnNum = orOne (a_columnNum param)
      in sheetGetRange w (c_sheet this) startRow startColumn rowNum columnNum)"

definition getHeaderRange :: "controller \<Rightarrow> world \<Rightarrow> error + rangeH" where
  "getHeaderRange this w =
     getRange this w \<lparr>a_startRow = c_headerRow this, a_startColumn = c_startColumn this,
                      a_rowNum = None, a_columnNum = Some (c_columnNum this)\<rparr>"

subsection \<open>getLastRow, getLastColumn, reflashLastRow, reflashLastColumn\<close>

definition getLastRow :: "controller \<Rightarrow> world \<Rightarrow> error + (int \<times> world)" where
  "getLastRow this w =
     bindE (getMaxRows w (c_sheet this)) (\<lambda>m.
     bindE (sheetGetRange w (c_sheet this) m (c_keyColumn this) 1 1) (\<lambda>baseCell.
     bindE (getNextDataCell w baseCell UP) (\<lambda>(cell, w1).
     bindE (getValue w1 baseCell) (\<lambda>v.
       let lastRow = rngRow cell
       in Inr (if truthy v \<and> lastRow \<le> c_headerRow this then rngRow baseCell else lastRow,
               w1)))))"

definition getLastColumn :: "controller \<Rightarrow> world \<Rightarrow> error + (int \<times> world)" where
  "getLastColumn this w =
     bindE (sheetGetRange w (c_sheet this) (c_headerRow this) (c_startColumn this) 1 1) (\<lambda>baseCell.
     bindE (getNextDataCell w baseCell NEXT) (\<lambda>(cell, w1).
       Inr (rngColumn cell, w1)))"

definition reflashLastRow :: "controller \<Rightarrow> world \<Rightarrow> error + (controller \<times> world)" where
  "reflashLastRow this w =
     bindE (getLastRow this w) (\<lambda>(lastRow, w1).
       Inr (this\<lparr>c_lastRow := lastRow, c_rowNum := lastRow - c_dataStartRow this + 1\<rparr>, w1))"

definition reflashLastColumn :: "controller \<Rightarrow> world \<Rightarrow> error + (controller \<times> world)" where
  "reflashLastColumn this w =
     bindE (getLastColumn this w) (\<lambda>(lastColumn, w1).
       let this1 = this\<lparr>c_lastColumn := lastColumn,
                        c_columnNum := lastColumn - c_startColumn this + 1\<rparr>
       in bindE (getHeaderRange this1 w1) (\<lambda>rng.
          bindE (getValues w1 rng) (\<lambda>vals.
            Inr (this1\<lparr>c_header := concat vals\<rparr>, w1))))"

subsection \<open>setSheetControllerParam\<close>

text \<open>
  The method is a sequence of blocks, one per property; each is a definition here, in the
  source's order, returning the property's new value and the block's "change" flag.
  \<open>this = None\<close> is the fresh object of the constructor's call.
\<close>

definition bookInstance :: "controller option \<Rightarrow> param \<Rightarrow> world \<Rightarrow> error + (string \<times> bool)" where
  "bookInstance this param w =
     (if truthyS (p_bookId param) then
        (case openById w (the (p_bookId param)) of
           None \<Rightarrow> Inl BookOpenError
         | Some b \<Rightarrow> Inr (b, True))
      else (case this of
              None \<Rightarrow> (case activeBook w of
                         None \<Rightarrow> Inl PlatformError
                       | Some b \<Rightarrow> Inr (b, True))
            | Some c \<Rightarrow> Inr (c_book c, False)))"

definition sheetInstance ::
  "controller option \<Rightarrow> param \<Rightarrow> string \<Rightarrow> bool \<Rightarrow> world
     \<Rightarrow> error + ((string option \<times> sheetRef \<times> bool) \<times> world)" where
  "sheetInstance this param book changeBookId w =
     (if truthyS (p_sheetName param) \<or> changeBookId then
        (let sheetName = (if truthyS (p_sheetName param) then p_sheetName param
                          else (case this of None \<Rightarrow> None | Some c \<Rightarrow> c_sheetName c))
         in case books w book of
              None \<Rightarrow> Inl PlatformError
            | Some shs \<Rightarrow>
                (case sheetName of
                   None \<Rightarrow> bindE (insertSheet w book None) (\<lambda>(sh, w1). Inr ((None, sh, True), w1))
                 | Some n \<Rightarrow>
                     if n \<in> set (map fst shs) then Inr ((Some n, (book, n), True), w)
                     else bindE (insertSheet w book (Some n))
                            (\<lambda>(sh, w1). Inr ((Some n, sh, True), w1))))
      else (case this of
              None \<Rightarrow> Inl PlatformError
            | Some c \<Rightarrow> Inr ((c_sheetName c, c_sheet c, False), w)))"

definition headerRowBlock :: "controller option \<Rightarrow> param \<Rightarrow> int \<times> int \<times> bool" where
  "headerRowBlock this param =
     (if truthyN (p_headerRow param)
      then (the (p_headerRow param), the (p_headerRow param) + 1, True)
      else (case this of
              None \<Rightarrow> (1, 1 + 1, True)
            | Some c \<Rightarrow> if c_headerRow c = 0 then (1, 1 + 1, True)
                        else (c_headerRow c, c_dataStartRow c, False)))"

definition startColumnBlock :: "controller option \<Rightarrow> param \<Rightarrow> int \<times> bool" where
  "startColumnBlock this param =
     (if truthyN (p_startColumn param) then (the (p_startColumn param), True)
      else (case this of
              None \<Rightarrow> (1, True)
            | Some c \<Rightarrow> if c_startColumn c = 0 then (1, True) else (c_startColumn c, False)))"

definition keyColumnBlock :: "controller option \<Rightarrow> param \<Rightarrow> int \<Rightarrow> bool \<Rightarrow> int" where
  "keyColumnBlock this param startColumn changeStartColumn =
     (if truthyN (p_keyColumn param) then the (p_keyColumn param)
      else if changeStartColumn then startColumn
      else (case this of None \<Rightarrow> startColumn | Some c \<Rightarrow> c_keyColumn c))"

text \<open>
  The cached properties of a fresh object are undefined in the source; they are zero and
  the empty list here. They are never read: the first call always sets \<open>changeBookId\<close>
  and \<open>changeStartColumn\<close>. For the same reason the cases \<open>this = None\<close> in the
  last branches of \<open>sheetInstance\<close> and \<open>keyColumnBlock\<close> above are never taken.
\<close>

definition freshCache :: "string \<Rightarrow> controller" where
  "freshCache book =
     \<lparr>c_book = book, c_sheetName = None, c_sheet = (book, []), c_headerRow = 0,
      c_dataStartRow = 0, c_startColumn = 0, c_keyColumn = 0, c_lastRow = 0, c_rowNum = 0,
      c_lastColumn = 0, c_columnNum = 0, c_header = []\<rparr>"

definition setSheetControllerParam ::
  "controller option \<Rightarrow> param \<Rightarrow> world \<Rightarrow> error + (controller \<times> world)" where
  "setSheetControllerParam this param w =
     bindE (bookInstance this param w) (\<lambda>(book, changeBookId).
     bindE (sheetInstance this param book changeBookId w) (\<lambda>((sheetName, sheet, changeSheetName), w1).
       let (headerRow, dataStartRow, changeHeaderRow) = headerRowBlock this param;
           (startColumn, changeStartColumn) = startColumnBlock this param;
           keyColumn = keyColumnBlock this param startColumn changeStartColumn;
           this1 = (case this of None \<Rightarrow> freshCache book | Some c \<Rightarrow> c)
                     \<lparr>c_book := book, c_sheetName := sheetName, c_sheet := sheet,
                      c_headerRow := headerRow, c_dataStartRow := dataStartRow,
                      c_startColumn := startColumn, c_keyColumn := keyColumn\<rparr>
       in if changeBookId \<or> changeSheetName \<or> changeHeaderRow \<or> changeStartColumn
          then bindE (reflashLastRow this1 w1) (\<lambda>(this2, w2). reflashLastColumn this2 w2)
          else Inr (this1, w1)))"

text \<open>The constructor: \<open>new SheetController(param)\<close>.\<close>

definition newSheetController :: "param \<Rightarrow> world \<Rightarrow> error + (controller \<times> world)" where
  "newSheetController param w = setSheetControllerParam None param w"

subsection \<open>outputHeader, outputDataArea\<close>

definition outputHeader ::
  "controller \<Rightarrow> world \<Rightarrow> cellval list \<Rightarrow> error + (rangeH \<times> controller \<times> world)" where
  "outputHeader this w headerArray =
     bindE (getRange this w \<lparr>a_startRow = c_headerRow this, a_startColumn = c_startColumn this,
                             a_rowNum = None, a_columnNum = Some (int (length headerArray))\<rparr>)
       (\<lambda>outputHeaderRange.
     bindE (setValues w outputHeaderRange [headerArray]) (\<lambda>w1.
     bindE (reflashLastColumn this w1) (\<lambda>(this1, w2).
       Inr (outputHeaderRange, this1, w2))))"

text \<open>\<open>outputDataArray[0].length\<close> throws a TypeError on the empty array.\<close>

definition outputDataArea ::
  "controller \<Rightarrow> world \<Rightarrow> cellval list list \<Rightarrow> error + (rangeH \<times> controller \<times> world)" where
  "outputDataArea this w outputDataArray =
     (case outputDataArray of
        [] \<Rightarrow> Inl PlatformError
      | row0 # rest \<Rightarrow>
          bindE (getRange this w \<lparr>a_startRow = c_dataStartRow this,
                                  a_startColumn = c_startColumn this,
                                  a_rowNum = Some (int (length outputDataArray)),
                                  a_columnNum = Some (int (length row0))\<rparr>)
            (\<lambda>outputDataRange.
          bindE (setValues w outputDataRange outputDataArray) (\<lambda>w1.
          bindE (reflashLastRow this w1) (\<lambda>(this1, w2).
            Inr (outputDataRange, this1, w2)))))"

subsection \<open>getHeaderArrayIndexByColumnName, getHeaderColumnByColumnName\<close>

text \<open>
  \<open>Array.prototype.indexOf\<close>: the first position whose element is strictly equal to the
  argument, or \<open>-1\<close>. Both methods read \<open>this\<close> only, so they take no world.
\<close>

fun indexOf :: "'a list \<Rightarrow> 'a \<Rightarrow> int" where
  "indexOf [] x = -1"
| "indexOf (y # ys) x =
     (if y = x then 0 else (let i = indexOf ys x in if i = -1 then -1 else i + 1))"

definition getHeaderArrayIndexByColumnName :: "controller \<Rightarrow> cellval \<Rightarrow> error + int" where
  "getHeaderArrayIndexByColumnName this columnName =
     (let idx = indexOf (c_header this) columnName
      in if idx = -1 then Inl ColumnNotFoundError else Inr idx)"

definition getHeaderColumnByColumnName :: "controller \<Rightarrow> cellval \<Rightarrow> error + int" where
  "getHeaderColumnByColumnName this columnName =
     bindE (getHeaderArrayIndexByColumnName this columnName) (\<lambda>headerArrayIdx.
       Inr (headerArrayIdx + c_startColumn this))"

subsection \<open>The four change flags\<close>

text \<open>
  The values that the local variables \<open>changeBookId\<close>, \<open>changeSheetName\<close>,
  \<open>changeHeaderRow\<close> and \<open>changeStartColumn\<close> have at the end of
  \<open>setSheetControllerParam\<close>, as functions of the object and the parameter.
\<close>

definition changeBookId :: "controller option \<Rightarrow> param \<Rightarrow> bool" where
  "changeBookId this param = (truthyS (p_bookId param) \<or> this = None)"

definition changeSheetName :: "controller option \<Rightarrow> param \<Rightarrow> bool" where
  "changeSheetName this param = (truthyS (p_sheetName param) \<or> changeBookId this param)"

definition changeHeaderRow :: "controller option \<Rightarrow> param \<Rightarrow> bool" where
  "changeHeaderRow this param = snd (snd (headerRowBlock this param))"

definition changeStartColumn :: "controller option \<Rightarrow> param \<Rightarrow> bool" where
  "changeStartColumn this param = snd (startColumnBlock this param)"

subsection \<open>The object before the final refresh\<close>

text \<open>
  The value of \<open>this\<close> in \<open>setSheetControllerParam\<close> when the last \<open>if\<close> is reached.
\<close>

definition configured :: "controller option \<Rightarrow> param \<Rightarrow> string \<Rightarrow> string option \<Rightarrow> sheetRef \<Rightarrow> controller" where
  "configured this param book sn sh =
     (case this of None \<Rightarrow> freshCache book | Some c \<Rightarrow> c)
       \<lparr>c_book := book, c_sheetName := sn, c_sheet := sh,
        c_headerRow := fst (headerRowBlock this param),
        c_dataStartRow := fst (snd (headerRowBlock this param)),
        c_startColumn := fst (startColumnBlock this param),
        c_keyColumn := keyColumnBlock this param (fst (startColumnBlock this param))
                         (changeStartColumn this param)\<rparr>"

subsection \<open>The object a call leaves behind\<close>

text \<open>
  For each method that assigns to \<open>this\<close>: the object as the call leaves it, whether it
  returns or throws. The assignments are those of the source, in its order, up to the
  statement that throws.

  \<open>reflashLastRow\<close> assigns \<open>_lastRow\<close> and \<open>_rowNum\<close> after \<open>getLastRow\<close> has
  returned. \<open>reflashLastColumn\<close> assigns \<open>_lastColumn\<close> and \<open>_columnNum\<close> after
  \<open>getLastColumn\<close> has returned, and \<open>_header\<close> after the header range has been read.
\<close>

definition reflashLastRow_this :: "controller \<Rightarrow> world \<Rightarrow> controller" where
  "reflashLastRow_this this w =
     (case getLastRow this w of
        Inl e \<Rightarrow> this
      | Inr (lastRow, w1) \<Rightarrow>
          this\<lparr>c_lastRow := lastRow, c_rowNum := lastRow - c_dataStartRow this + 1\<rparr>)"

definition reflashLastColumn_this :: "controller \<Rightarrow> world \<Rightarrow> controller" where
  "reflashLastColumn_this this w =
     (case getLastColumn this w of
        Inl e \<Rightarrow> this
      | Inr (lastColumn, w1) \<Rightarrow>
          (let this1 = this\<lparr>c_lastColumn := lastColumn,
                            c_columnNum := lastColumn - c_startColumn this + 1\<rparr>
           in case bindE (getHeaderRange this1 w1) (getValues w1) of
                Inl e \<Rightarrow> this1
              | Inr vals \<Rightarrow> this1\<lparr>c_header := concat vals\<rparr>))"

text \<open>
  \<open>setSheetControllerParam\<close> on an existing object. \<open>openById\<close> throws before
  \<open>_book\<close> is assigned. In the sheet block \<open>_sheetName\<close> is assigned first, and
  \<open>getSheets\<close> or \<open>insertSheet\<close> may throw after it. Header row, data start row, start
  column and key column are then assigned without a call that could throw, and the two
  refreshes run last. (A constructor that throws yields no object.)
\<close>

definition setSheetControllerParam_this :: "controller \<Rightarrow> param \<Rightarrow> world \<Rightarrow> controller" where
  "setSheetControllerParam_this this param w =
     (case bookInstance (Some this) param w of
        Inl e \<Rightarrow> this
      | Inr (book, bookChanged) \<Rightarrow>
          (case sheetInstance (Some this) param book bookChanged w of
             Inl e \<Rightarrow>
               this\<lparr>c_book := book,
                    c_sheetName := (if truthyS (p_sheetName param) then p_sheetName param
                                    else c_sheetName this)\<rparr>
           | Inr ((sheetName, sheet, sheetChanged), w1) \<Rightarrow>
               (let this1 = configured (Some this) param book sheetName sheet
                in if bookChanged \<or> sheetChanged \<or> changeHeaderRow (Some this) param
                      \<or> changeStartColumn (Some this) param
                   then (case reflashLastRow this1 w1 of
                           Inl e \<Rightarrow> this1
                         | Inr (this2, w2) \<Rightarrow> reflashLastColumn_this this2 w2)
                   else this1)))"

text \<open>\<open>outputHeader\<close> and \<open>outputDataArea\<close> assign nothing before the refresh.\<close>

definition outputHeader_this :: "controller \<Rightarrow> world \<Rightarrow> cellval list \<Rightarrow> controller" where
  "outputHeader_this this w headerArray =
     (case bindE (getRange this w \<lparr>a_startRow = c_headerRow this,
                                    a_startColumn = c_startColumn this, a_rowNum = None,
                                    a_columnNum = Some (int (length headerArray))\<rparr>)
             (\<lambda>outputHeaderRange. setValues w outputHeaderRange [headerArray]) of
        Inl e \<Rightarrow> this
      | Inr w1 \<Rightarrow> reflashLastColumn_this this w1)"

definition outputDataArea_this :: "controller \<Rightarrow> world \<Rightarrow> cellval list list \<Rightarrow> controller" where
  "outputDataArea_this this w outputDataArray =
     (case outputDataArray of
        [] \<Rightarrow> this
      | row0 # rest \<Rightarrow>
          (case bindE (getRange this w \<lparr>a_startRow = c_dataStartRow this,
                                         a_startColumn = c_startColumn this,
                                         a_rowNum = Some (int (length outputDataArray)),
                                         a_columnNum = Some (int (length row0))\<rparr>)
                  (\<lambda>outputDataRange. setValues w outputDataRange outputDataArray) of
             Inl e \<Rightarrow> this
           | Inr w1 \<Rightarrow> reflashLastRow_this this w1))"

subsection \<open>Reachable controllers\<close>

text \<open>
  The controllers that exist at run time: made by a constructor call that returned, and
  then changed by any calls of the public methods that write to the object, whether these
  returned or threw. Each call meets an arbitrary world, so whatever other actors do to the
  sheets between two calls is covered.
\<close>

inductive reachable :: "controller \<Rightarrow> bool" where
  constructed: "newSheetController param w = Inr (this, w') \<Longrightarrow> reachable this"
| updated: "reachable this \<Longrightarrow> reachable (setSheetControllerParam_this this param w)"
| lastRowReflashed: "reachable this \<Longrightarrow> reachable (reflashLastRow_this this w)"
| lastColumnReflashed: "reachable this \<Longrightarrow> reachable (reflashLastColumn_this this w)"
| headerOutput: "reachable this \<Longrightarrow> reachable (outputHeader_this this w headerArray)"
| dataAreaOutput: "reachable this \<Longrightarrow> reachable (outputDataArea_this this w outputDataArray)"

text \<open>The controllers on which no call has thrown so far.\<close>

inductive reachedWithoutThrow :: "controller \<Rightarrow> bool" where
  constructed: "newSheetController param w = Inr (this, w') \<Longrightarrow> reachedWithoutThrow this"
| updated: "reachedWithoutThrow this
     \<Longrightarrow> setSheetControllerParam (Some this) param w = Inr (this', w')
     \<Longrightarrow> reachedWithoutThrow this'"
| lastRowReflashed: "reachedWithoutThrow this \<Longrightarrow> reflashLastRow this w = Inr (this', w')
     \<Longrightarrow> reachedWithoutThrow this'"
| lastColumnReflashed: "reachedWithoutThrow this \<Longrightarrow> reflashLastColumn this w = Inr (this', w')
     \<Longrightarrow> reachedWithoutThrow this'"
| headerOutput: "reachedWithoutThrow this
     \<Longrightarrow> outputHeader this w headerArray = Inr (rng, this', w')
     \<Longrightarrow> reachedWithoutThrow this'"
| dataAreaOutput: "reachedWithoutThrow this
     \<Longrightarrow> outputDataArea this w outputDataArray = Inr (rng, this', w')
     \<Longrightarrow> reachedWithoutThrow this'"

subsection \<open>Consistency of the cached properties\<close>

text \<open>
  What every controller that exists at run time satisfies (shown below): the cached header
  is as long as the column count, header row and start column are set, and the data start
  row is the row after the header row.
\<close>

definition settled :: "controller \<Rightarrow> bool" where
  "settled c \<longleftrightarrow>
     int (length (c_header c)) = c_columnNum c
     \<and> c_headerRow c \<noteq> 0 \<and> c_startColumn c \<noteq> 0
     \<and> c_dataStartRow c = c_headerRow c + 1"

text \<open>
  What a controller satisfies in addition as long as no call on it has thrown: the two
  cached counts agree with the cached boundaries.
\<close>

definition consistent :: "controller \<Rightarrow> bool" where
  "consistent c \<longleftrightarrow>
     c_rowNum c = c_lastRow c - c_dataStartRow c + 1
     \<and> c_columnNum c = c_lastColumn c - c_startColumn c + 1
     \<and> int (length (c_header c)) = c_columnNum c
     \<and> c_headerRow c \<noteq> 0 \<and> c_startColumn c \<noteq> 0
     \<and> c_dataStartRow c = c_headerRow c + 1"

section \<open>A small example sheet\<close>

text \<open>
  A sheet of 5 rows and 8 columns. Row 2 holds the header \<open>Name, Age, City\<close> in columns 2
  to 4, and the key column 2 holds two data rows below it. The same sheet is in two
  spreadsheets, \<open>b1\<close> (the active one) and \<open>b2\<close>.
\<close>

definition exCells :: "int \<Rightarrow> int \<Rightarrow> cellval" where
  "exCells r c =
     (if r = 2 \<and> c = 2 then Str ''Name''
      else if r = 2 \<and> c = 3 then Str ''Age''
      else if r = 2 \<and> c = 4 then Str ''City''
      else if r = 3 \<and> c = 2 then Str ''Ann''
      else if r = 4 \<and> c = 2 then Str ''Bob''
      else Str [])"

definition exSheet :: sheet where
  "exSheet = \<lparr>maxRows = 5, maxColumns = 8, cells = exCells\<rparr>"

definition exBooks :: "string \<Rightarrow> (string \<times> sheet) list option" where
  "exBooks b = (if b = ''b1'' \<or> b = ''b2'' then Some [(''Sheet1'', exSheet)] else None)"

definition noName :: "string list \<Rightarrow> string option" where
  "noName ns = None"

definition exWorld :: world where
  "exWorld = \<lparr>books = exBooks, activeBook = Some ''b1'', unnamedSheet = noName, scanLog = []\<rparr>"

text \<open>The controller that \<open>new SheetController({sheetName: "Sheet1", headerRow: 2,
  startColumn: 2})\<close> returns in this world, and the world it leaves.\<close>

definition exParam :: param where
  "exParam = \<lparr>p_bookId = None, p_sheetName = Some ''Sheet1'', p_headerRow = Some 2,
              p_startColumn = Some 2, p_keyColumn = None\<rparr>"

definition exController :: controller where
  "exController =
     \<lparr>c_book = ''b1'', c_sheetName = Some ''Sheet1'', c_sheet = (''b1'', ''Sheet1''),
      c_headerRow = 2, c_dataStartRow = 3, c_startColumn = 2, c_keyColumn = 2,
      c_lastRow = 4, c_rowNum = 2, c_lastColumn = 4, c_columnNum = 3,
      c_header = [Str ''Name'', Str ''Age'', Str ''City'']\<rparr>"

definition exWorld1 :: world where
  "exWorld1 = exWorld\<lparr>scanLog := [(UP, (''b1'', ''Sheet1''), 5, 2),
                                  (NEXT, (''b1'', ''Sheet1''), 2, 2)]\<rparr>"

text \<open>Updates of that controller, and what they return.\<close>
definition rebindParam :: param where
  "rebindParam = \<lparr>p_bookId = Some ''b2'', p_sheetName = None, p_headerRow = None,
                  p_startColumn = None, p_keyColumn = None\<rparr>"

definition exRebound :: controller where
  "exRebound =
     \<lparr>c_book = ''b2'', c_sheetName = Some ''Sheet1'', c_sheet = (''b2'', ''Sheet1''),
      c_headerRow = 2, c_dataStartRow = 3, c_startColumn = 2, c_keyColumn = 2,
      c_lastRow = 4, c_rowNum = 2, c_lastColumn = 4, c_columnNum = 3,
      c_header = [Str ''Name'', Str ''Age'', Str ''City'']\<rparr>"

definition exWorld2 :: world where
  "exWorld2 = exWorld\<lparr>scanLog := [(UP, (''b1'', ''Sheet1''), 5, 2),
                                  (NEXT, (''b1'', ''Sheet1''), 2, 2),
                                  (UP, (''b2'', ''Sheet1''), 5, 2),
                                  (NEXT, (''b2'', ''Sheet1''), 2, 2)]\<rparr>"

definition startColumn7Param :: param where
  "startColumn7Param = \<lparr>p_bookId = None, p_sheetName = None, p_headerRow = None,
                        p_startColumn = Some 7, p_keyColumn = None\<rparr>"

definition exMoved :: controller where
  "exMoved =
     \<lparr>c_book = ''b1'', c_sheetName = Some ''Sheet1'', c_sheet = (''b1'', ''Sheet1''),
      c_headerRow = 2, c_dataStartRow = 3, c_startColumn = 7, c_keyColumn = 7,
      c_lastRow = 1, c_rowNum = - 1, c_lastColumn = 8, c_columnNum = 2,
      c_header = [Str [], Str []]\<rparr>"

definition exWorld3 :: world where
  "exWorld3 = exWorld\<lparr>scanLog := [(UP, (''b1'', ''Sheet1''), 5, 2),
                                  (NEXT, (''b1'', ''Sheet1''), 2, 2),
                                  (UP, (''b1'', ''Sheet1''), 5, 7),
                                  (NEXT, (''b1'', ''Sheet1''), 2, 7)]\<rparr>"

definition headerRow5Param :: param where
  "headerRow5Param = \<lparr>p_bookId = None, p_sheetName = None, p_headerRow = Some 5,
                      p_startColumn = None, p_keyColumn = None\<rparr>"

definition exLowered :: controller where
  "exLowered =
     \<lparr>c_book = ''b1'', c_sheetName = Some ''Sheet1'', c_sheet = (''b1'', ''Sheet1''),
      c_headerRow = 5, c_dataStartRow = 6, c_startColumn = 2, c_keyColumn = 2,
      c_lastRow = 4, c_rowNum = - 1, c_lastColumn = 8, c_columnNum = 7,
      c_header = [Str [], Str [], Str [], Str [], Str [], Str [], Str []]\<rparr>"

definition exWorld4 :: world where
  "exWorld4 = exWorld\<lparr>scanLog := [(UP, (''b1'', ''Sheet1''), 5, 2),
                                  (NEXT, (''b1'', ''Sheet1''), 2, 2),
                                  (UP, (''b1'', ''Sheet1''), 5, 2),
                                  (NEXT, (''b1'', ''Sheet1''), 5, 2)]\<rparr>"

definition keyColumn3Param :: param where
  "keyColumn3Param = \<lparr>p_bookId = None, p_sheetName = None, p_headerRow = None,
                      p_startColumn = None, p_keyColumn = Some 3\<rparr>"

definition startColumn3Param :: param where
  "startColumn3Param = \<lparr>p_bookId = None, p_sheetName = Some ''Sheet1'', p_headerRow = None,
                        p_startColumn = Some 3, p_keyColumn = None\<rparr>"

definition headerRow2Param :: param where
  "headerRow2Param = \<lparr>p_bookId = None, p_sheetName = None, p_headerRow = Some 2,
                      p_startColumn = None, p_keyColumn = None\<rparr>"

definition chain1 :: controller where
  "chain1 =
     \<lparr>c_book = ''b1'', c_sheetName = Some ''Sheet1'', c_sheet = (''b1'', ''Sheet1''),
      c_headerRow = 1, c_dataStartRow = 2, c_startColumn = 3, c_keyColumn = 3,
      c_lastRow = 2, c_rowNum = 1, c_lastColumn = 8, c_columnNum = 6,
      c_header = [Str [], Str [], Str [], Str [], Str [], Str []]\<rparr>"

definition chain2 :: controller where
  "chain2 =
     \<lparr>c_book = ''b1'', c_sheetName = Some ''Sheet1'', c_sheet = (''b1'', ''Sheet1''),
      c_headerRow = 1, c_dataStartRow = 2, c_startColumn = 7, c_keyColumn = 7,
      c_lastRow = 1, c_rowNum = 0, c_lastColumn = 8, c_columnNum = 2,
      c_header = [Str [], Str []]\<rparr>"

text \<open>
  An update of that controller that throws: key column 99 is outside the sheet, so the
  refresh of the last row fails after the configuration has been overwritten. Then the object
  it leaves behind, an update that only repairs the key column, and the object after a
  following \<open>outputDataArea\<close>.
\<close>

definition badKeyParam :: param where
  "badKeyParam = \<lparr>p_bookId = None, p_sheetName = None, p_headerRow = None,
                  p_startColumn = Some 3, p_keyColumn = Some 99\<rparr>"

definition exStale :: controller where
  "exStale =
     \<lparr>c_book = ''b1'', c_sheetName = Some ''Sheet1'', c_sheet = (''b1'', ''Sheet1''),
      c_headerRow = 2, c_dataStartRow = 3, c_startColumn = 3, c_keyColumn = 99,
      c_lastRow = 4, c_rowNum = 2, c_lastColumn = 4, c_columnNum = 3,
      c_header = [Str ''Name'', Str ''Age'', Str ''City'']\<rparr>"

definition keyColumn2Param :: param where
  "keyColumn2Param = \<lparr>p_bookId = None, p_sheetName = None, p_headerRow = None,
                      p_startColumn = None, p_keyColumn = Some 2\<rparr>"

definition exRepaired :: controller where
  "exRepaired =
     \<lparr>c_book = ''b1'', c_sheetName = Some ''Sheet1'', c_sheet = (''b1'', ''Sheet1''),
      c_headerRow = 2, c_dataStartRow = 3, c_startColumn = 3, c_keyColumn = 2,
      c_lastRow = 4, c_rowNum = 2, c_lastColumn = 4, c_columnNum = 3,
      c_header = [Str ''Name'', Str ''Age'', Str ''City'']\<rparr>"

text \<open>
  A sheet of 3 rows whose key column 1 is filled down to the last row: a header and two
  counts that are both 0.
\<close>

definition zeroCells :: "int \<Rightarrow> int \<Rightarrow> cellval" where
  "zeroCells r c =
     (if r = 1 \<and> c = 1 then Str ''Count''
      else if r = 2 \<and> c = 1 then Num 0
      else if r = 3 \<and> c = 1 then Num 0
      else Str [])"

definition zeroSheet :: sheet where
  "zeroSheet = \<lparr>maxRows = 3, maxColumns = 2, cells = zeroCells\<rparr>"

definition zeroBooks :: "string \<Rightarrow> (string \<times> sheet) list option" where
  "zeroBooks b = (if b = ''b1'' then Some [(''Sheet1'', zeroSheet)] else None)"

definition zeroWorld :: world where
  "zeroWorld = \<lparr>books = zeroBooks, activeBook = Some ''b1'', unnamedSheet = noName, scanLog = []\<rparr>"

definition zeroController :: controller where
  "zeroController =
     \<lparr>c_book = ''b1'', c_sheetName = Some ''Sheet1'', c_sheet = (''b1'', ''Sheet1''),
      c_headerRow = 1, c_dataStartRow = 2, c_startColumn = 1, c_keyColumn = 1,
      c_lastRow = 1, c_rowNum = 0, c_lastColumn = 2, c_columnNum = 2,
      c_header = [Str ''Count'', Str []]\<rparr>"

definition zeroParam :: param where
  "zeroParam = \<lparr>p_bookId = None, p_sheetName = Some ''Sheet1'', p_headerRow = Some 1,
                p_startColumn = Some 1, p_keyColumn = None\<rparr>"

section \<open>Basic facts\<close>

lemma bindE_Inl [simp]: "bindE (Inl e) f = Inl e"
  by (simp add: bindE_def)

lemma bindE_Inr [simp]: "bindE (Inr x) f = f x"
  by (simp add: bindE_def)

lemma bindE_eq_Inr: "bindE m f = Inr y \<longleftrightarrow> (\<exists>x. m = Inr x \<and> f x = Inr y)"
  by (cases m) simp_all

lemma lookupSheet_scanLog [simp]: "lookupSheet (w\<lparr>scanLog := l\<rparr>) ref = lookupSheet w ref"
  by (simp add: lookupSheet_def)

lemma sheetGetRange_scanLog [simp]:
  "sheetGetRange (w\<lparr>scanLog := l\<rparr>) ref r c nr nc = sheetGetRange w ref r c nr nc"
  by (simp add: sheetGetRange_def)

lemma getValue_scanLog [simp]: "getValue (w\<lparr>scanLog := l\<rparr>) rng = getValue w rng"
  by (simp add: getValue_def)

lemma getValues_scanLog [simp]: "getValues (w\<lparr>scanLog := l\<rparr>) rng = getValues w rng"
  by (simp add: getValues_def)

lemma sheetGetRange_Inr:
  "sheetGetRange w ref r c nr nc = Inr rng \<longleftrightarrow>
     (\<exists>sh. lookupSheet w ref = Inr sh \<and> 1 \<le> r \<and> 1 \<le> c \<and> 1 \<le> nr \<and> 1 \<le> nc
        \<and> r + nr - 1 \<le> maxRows sh \<and> c + nc - 1 \<le> maxColumns sh
        \<and> rng = \<lparr>rngSheet = ref, rngRow = r, rngColumn = c, rngNumRows = nr, rngNumColumns = nc\<rparr>)"
  by (auto simp: sheetGetRange_def bindE_eq_Inr)

subsection \<open>The jump stays inside the sheet\<close>

lemma runLength_le: "runLength bs \<le> length bs"
  by (induction bs) auto

lemma skipBlank_le: "skipBlank bs \<le> length bs"
  by (induction bs) auto

lemma jumpSteps_le: "jumpSteps h bs \<le> length bs"
  using runLength_le[of bs] skipBlank_le[of bs]
  by (cases bs) (auto simp: jumpSteps_def simp del: runLength.simps skipBlank.simps)

lemma length_cellsAhead_NEXT: "length (cellsAhead sh NEXT r c) = nat (maxColumns sh - c)"
  by (simp add: cellsAhead_def)

lemma length_cellsAhead_UP: "length (cellsAhead sh UP r c) = nat r - 1"
  by (simp add: cellsAhead_def)

subsection \<open>What the boundary scans return\<close>

lemma getLastColumn_Inr:
  assumes "getLastColumn this w = Inr (lc, w1)"
  shows "\<exists>sh. lookupSheet w (c_sheet this) = Inr sh
           \<and> 1 \<le> c_headerRow this \<and> c_headerRow this \<le> maxRows sh
           \<and> 1 \<le> c_startColumn this \<and> c_startColumn this \<le> lc \<and> lc \<le> maxColumns sh
           \<and> lc = c_startColumn this
                  + int (jumpSteps (hasData (cells sh (c_headerRow this) (c_startColumn this)))
                           (cellsAhead sh NEXT (c_headerRow this) (c_startColumn this)))
           \<and> w1 = w\<lparr>scanLog := scanLog w @ [(NEXT, c_sheet this, c_headerRow this, c_startColumn this)]\<rparr>"
proof -
  from assms obtain baseCell cell where
    b: "sheetGetRange w (c_sheet this) (c_headerRow this) (c_startColumn this) 1 1 = Inr baseCell"
    and n: "getNextDataCell w baseCell NEXT = Inr (cell, w1)" and lc: "lc = rngColumn cell"
    by (auto simp: getLastColumn_def bindE_eq_Inr)
  from b obtain sh where sh: "lookupSheet w (c_sheet this) = Inr sh"
    and bd: "1 \<le> c_headerRow this" "c_headerRow this \<le> maxRows sh"
            "1 \<le> c_startColumn this" "c_startColumn this \<le> maxColumns sh"
    and bc: "baseCell = \<lparr>rngSheet = c_sheet this, rngRow = c_headerRow this,
               rngColumn = c_startColumn this, rngNumRows = 1, rngNumColumns = 1\<rparr>"
    by (auto simp: sheetGetRange_Inr)
  let ?n = "jumpSteps (hasData (cells sh (c_headerRow this) (c_startColumn this)))
              (cellsAhead sh NEXT (c_headerRow this) (c_startColumn this))"
  from n sh bc have cell: "rngColumn cell = c_startColumn this + int ?n"
    and w1: "w1 = w\<lparr>scanLog := scanLog w @ [(NEXT, c_sheet this, c_headerRow this, c_startColumn this)]\<rparr>"
    by (auto simp: getNextDataCell_def Let_def)
  have "?n \<le> nat (maxColumns sh - c_startColumn this)"
    using jumpSteps_le[of _ "cellsAhead sh NEXT (c_headerRow this) (c_startColumn this)"]
    by (simp add: length_cellsAhead_NEXT)
  with bd have "c_startColumn this + int ?n \<le> maxColumns sh" by linarith
  with sh bd cell w1 lc show ?thesis by auto
qed

lemma getLastRow_Inr:
  assumes "getLastRow this w = Inr (lr, w1)"
  shows "\<exists>sh. lookupSheet w (c_sheet this) = Inr sh
           \<and> 1 \<le> maxRows sh \<and> 1 \<le> c_keyColumn this \<and> c_keyColumn this \<le> maxColumns sh
           \<and> lr = (let r = maxRows sh - int (jumpSteps (hasData (cells sh (maxRows sh) (c_keyColumn this)))
                                          (cellsAhead sh UP (maxRows sh) (c_keyColumn this)))
                   in if truthy (cells sh (maxRows sh) (c_keyColumn this)) \<and> r \<le> c_headerRow this
                      then maxRows sh else r)
           \<and> w1 = w\<lparr>scanLog := scanLog w @ [(UP, c_sheet this, maxRows sh, c_keyColumn this)]\<rparr>"
proof -
  from assms obtain m baseCell cell v where
    m: "getMaxRows w (c_sheet this) = Inr m"
    and b: "sheetGetRange w (c_sheet this) m (c_keyColumn this) 1 1 = Inr baseCell"
    and n: "getNextDataCell w baseCell UP = Inr (cell, w1)"
    and v: "getValue w1 baseCell = Inr v"
    and lr: "lr = (if truthy v \<and> rngRow cell \<le> c_headerRow this then rngRow baseCell else rngRow cell)"
    by (auto simp: getLastRow_def bindE_eq_Inr Let_def)
  from m obtain sh where sh: "lookupSheet w (c_sheet this) = Inr sh" and mm: "m = maxRows sh"
    by (auto simp: getMaxRows_def bindE_eq_Inr)
  from b sh mm have bd: "1 \<le> maxRows sh" "1 \<le> c_keyColumn this" "c_keyColumn this \<le> maxColumns sh"
    and bc: "baseCell = \<lparr>rngSheet = c_sheet this, rngRow = maxRows sh,
               rngColumn = c_keyColumn this, rngNumRows = 1, rngNumColumns = 1\<rparr>"
    by (auto simp: sheetGetRange_Inr)
  from n sh bc have cell: "rngRow cell = maxRows sh - int (jumpSteps (hasData (cells sh (maxRows sh) (c_keyColumn this)))
                                          (cellsAhead sh UP (maxRows sh) (c_keyColumn this)))"
    and w1: "w1 = w\<lparr>scanLog := scanLog w @ [(UP, c_sheet this, maxRows sh, c_keyColumn this)]\<rparr>"
    by (auto simp: getNextDataCell_def Let_def)
  from v w1 sh bc have vv: "v = cells sh (maxRows sh) (c_keyColumn this)"
    by (auto simp: getValue_def)
  from sh bd lr cell w1 vv bc show ?thesis by (auto simp: Let_def)
qed

lemma reflashLastRow_Inr:
  assumes "reflashLastRow this w = Inr (this', w')"
  shows "\<exists>lr. getLastRow this w = Inr (lr, w')
           \<and> this' = this\<lparr>c_lastRow := lr, c_rowNum := lr - c_dataStartRow this + 1\<rparr>"
  using assms by (auto simp: reflashLastRow_def bindE_eq_Inr)

lemma reflashLastColumn_Inr:
  assumes "reflashLastColumn this w = Inr (this', w')"
  shows "\<exists>lc sh. getLastColumn this w = Inr (lc, w') \<and> lookupSheet w (c_sheet this) = Inr sh
           \<and> c_startColumn this \<le> lc
           \<and> this' = this\<lparr>c_lastColumn := lc, c_columnNum := lc - c_startColumn this + 1,
                           c_header := map (\<lambda>j. cells sh (c_headerRow this) (c_startColumn this + int j))
                                         [0..<nat (lc - c_startColumn this + 1)]\<rparr>"
proof -
  from assms obtain lc w1 rng vals where
    g: "getLastColumn this w = Inr (lc, w1)"
    and r: "getHeaderRange (this\<lparr>c_lastColumn := lc, c_columnNum := lc - c_startColumn this + 1\<rparr>) w1 = Inr rng"
    and v: "getValues w1 rng = Inr vals"
    and t: "this' = this\<lparr>c_lastColumn := lc, c_columnNum := lc - c_startColumn this + 1, c_header := concat vals\<rparr>"
    and w: "w' = w1"
    by (auto simp: reflashLastColumn_def bindE_eq_Inr Let_def)
  from getLastColumn_Inr[OF g] obtain sh where sh: "lookupSheet w (c_sheet this) = Inr sh"
    and le: "c_startColumn this \<le> lc"
    and w1: "w1 = w\<lparr>scanLog := scanLog w @ [(NEXT, c_sheet this, c_headerRow this, c_startColumn this)]\<rparr>"
    by blast
  from le have nz: "lc - c_startColumn this + 1 \<noteq> 0" by simp
  from r nz have rng: "rng = \<lparr>rngSheet = c_sheet this, rngRow = c_headerRow this,
      rngColumn = c_startColumn this, rngNumRows = 1, rngNumColumns = lc - c_startColumn this + 1\<rparr>"
    by (auto simp: getHeaderRange_def getRange_def orOne_def sheetGetRange_Inr)
  from v sh w1 rng have "vals = [map (\<lambda>j. cells sh (c_headerRow this) (c_startColumn this + int j))
                                         [0..<nat (lc - c_startColumn this + 1)]]"
    by (auto simp: getValues_def)
  with g sh le t w show ?thesis by auto
qed

lemma reflashLastColumn_header_length:
  assumes "reflashLastColumn this w = Inr (this', w')"
  shows "int (length (c_header this')) = c_columnNum this' \<and> 1 \<le> c_columnNum this'"
  using reflashLastColumn_Inr[OF assms] by (elim exE conjE) simp

lemma getLastRow_cache [simp]:
  "getLastRow (this\<lparr>c_lastRow := a\<rparr>) w = getLastRow this w"
  "getLastRow (this\<lparr>c_rowNum := b\<rparr>) w = getLastRow this w"
  "getLastRow (this\<lparr>c_lastColumn := d\<rparr>) w = getLastRow this w"
  "getLastRow (this\<lparr>c_columnNum := e\<rparr>) w = getLastRow this w"
  "getLastRow (this\<lparr>c_header := h\<rparr>) w = getLastRow this w"
  by (simp_all add: getLastRow_def)

lemma getLastColumn_cache [simp]:
  "getLastColumn (this\<lparr>c_lastRow := a\<rparr>) w = getLastColumn this w"
  "getLastColumn (this\<lparr>c_rowNum := b\<rparr>) w = getLastColumn this w"
  "getLastColumn (this\<lparr>c_lastColumn := d\<rparr>) w = getLastColumn this w"
  "getLastColumn (this\<lparr>c_columnNum := e\<rparr>) w = getLastColumn this w"
  "getLastColumn (this\<lparr>c_header := h\<rparr>) w = getLastColumn this w"
  by (simp_all add: getLastColumn_def)

subsection \<open>The blocks of setSheetControllerParam\<close>

lemma bookInstance_Inr:
  assumes "bookInstance this param w = Inr (book, cb)"
  shows "cb = changeBookId this param"
    and "\<not> truthyS (p_bookId param) \<Longrightarrow> this = Some c \<Longrightarrow> book = c_book c"
    and "truthyS (p_bookId param) \<Longrightarrow> book = the (p_bookId param) \<and> books w book \<noteq> None"
  using assms
  by (auto simp: bookInstance_def changeBookId_def openById_def split: if_splits option.splits)

lemma insertSheet_scanLog:
  "insertSheet w book name = Inr (sh, w1) \<Longrightarrow> scanLog w1 = scanLog w"
  by (auto simp: insertSheet_def split: option.splits if_splits)

lemma sheetInstance_Inr:
  assumes "sheetInstance this param book cb w = Inr ((sn, sh, cs), w1)"
  shows "cs = (truthyS (p_sheetName param) \<or> cb)"
    and "scanLog w1 = scanLog w"
    and "\<not> cs \<Longrightarrow> w1 = w \<and> (\<exists>c. this = Some c \<and> sn = c_sheetName c \<and> sh = c_sheet c)"
    and "\<not> truthyS (p_sheetName param) \<Longrightarrow> this = Some c \<Longrightarrow> sn = c_sheetName c"
  using assms
  by (auto simp: sheetInstance_def bindE_eq_Inr Let_def insertSheet_scanLog
           split: if_splits option.splits)

lemma setSheetControllerParam_unfold:
  "setSheetControllerParam this param w =
     (case bookInstance this param w of
        Inl e \<Rightarrow> Inl e
      | Inr (book, cb) \<Rightarrow>
          (case sheetInstance this param book cb w of
             Inl e \<Rightarrow> Inl e
           | Inr ((sn, sh, cs), w1) \<Rightarrow>
               if cb \<or> cs \<or> changeHeaderRow this param \<or> changeStartColumn this param
               then bindE (reflashLastRow (configured this param book sn sh) w1)
                      (\<lambda>(this2, w2). reflashLastColumn this2 w2)
               else Inr (configured this param book sn sh, w1)))"
  by (simp add: setSheetControllerParam_def bindE_def configured_def changeHeaderRow_def
        changeStartColumn_def Let_def split: sum.splits prod.splits)

lemma setSheetControllerParam_Inr:
  assumes "setSheetControllerParam this param w = Inr (this', w')"
  shows "\<exists>book sn sh w1.
           bookInstance this param w = Inr (book, changeBookId this param)
         \<and> sheetInstance this param book (changeBookId this param) w
              = Inr ((sn, sh, changeSheetName this param), w1)
         \<and> (if changeBookId this param \<or> changeSheetName this param
                \<or> changeHeaderRow this param \<or> changeStartColumn this param
            then \<exists>this2 w2. reflashLastRow (configured this param book sn sh) w1 = Inr (this2, w2)
                            \<and> reflashLastColumn this2 w2 = Inr (this', w')
            else this' = configured this param book sn sh \<and> w' = w1)"
proof -
  from assms obtain book cb sn sh cs w1 where
    b: "bookInstance this param w = Inr (book, cb)"
    and s: "sheetInstance this param book cb w = Inr ((sn, sh, cs), w1)"
    and r': "(if cb \<or> cs \<or> changeHeaderRow this param \<or> changeStartColumn this param
          then bindE (reflashLastRow (configured this param book sn sh) w1)
                 (\<lambda>(this2, w2). reflashLastColumn this2 w2)
          else Inr (configured this param book sn sh, w1)) = Inr (this', w')"
    unfolding setSheetControllerParam_unfold by (auto split: sum.splits prod.splits)
  have cb: "cb = changeBookId this param" using bookInstance_Inr(1)[OF b] .
  have cs: "cs = changeSheetName this param"
    using sheetInstance_Inr(1)[OF s] cb by (simp add: changeSheetName_def)
  show ?thesis
  proof (cases "cb \<or> cs \<or> changeHeaderRow this param \<or> changeStartColumn this param")
    case True
    with r' have "bindE (reflashLastRow (configured this param book sn sh) w1)
                 (\<lambda>(this2, w2). reflashLastColumn this2 w2) = Inr (this', w')" by simp
    then obtain this2 w2 where "reflashLastRow (configured this param book sn sh) w1 = Inr (this2, w2)"
      "reflashLastColumn this2 w2 = Inr (this', w')"
      by (auto simp: bindE_eq_Inr)
    with True b s cb cs show ?thesis
      by (intro exI[of _ book] exI[of _ sn] exI[of _ sh] exI[of _ w1]) auto
  next
    case False
    with r' have "this' = configured this param book sn sh \<and> w' = w1" by simp
    with False b s cb cs show ?thesis
      by (intro exI[of _ book] exI[of _ sn] exI[of _ sh] exI[of _ w1]) auto
  qed
qed

lemma constructor_example: "newSheetController exParam exWorld = Inr (exController, exWorld1)"
  by (simp add: newSheetController_def setSheetControllerParam_def bookInstance_def sheetInstance_def
     headerRowBlock_def startColumnBlock_def keyColumnBlock_def exParam_def exWorld_def exBooks_def
     openById_def freshCache_def reflashLastRow_def reflashLastColumn_def getLastRow_def getLastColumn_def
     getMaxRows_def lookupSheet_def exSheet_def sheetGetRange_def getNextDataCell_def getValue_def getValues_def
     getHeaderRange_def getRange_def orOne_def cellsAhead_def jumpSteps_def exCells_def hasData_def upt_rec
     exController_def exWorld1_def)

subsection \<open>Consistency is established and preserved\<close>

lemma truthyN_the: "truthyN x \<Longrightarrow> the x \<noteq> 0"
  by (cases x) simp_all

lemma headerRowBlock_nonzero: "fst (headerRowBlock this param) \<noteq> 0"
  by (auto simp: headerRowBlock_def truthyN_the split: option.splits)

lemma headerRowBlock_dataStartRow:
  "(\<And>c. this = Some c \<Longrightarrow> c_dataStartRow c = c_headerRow c + 1) \<Longrightarrow>
     fst (snd (headerRowBlock this param)) = fst (headerRowBlock this param) + 1"
  by (auto simp: headerRowBlock_def split: option.splits)

lemma headerRowBlock_unchanged:
  "\<not> changeHeaderRow (Some c) param \<Longrightarrow>
     headerRowBlock (Some c) param = (c_headerRow c, c_dataStartRow c, False)"
  by (auto simp: headerRowBlock_def changeHeaderRow_def split: if_splits)

lemma startColumnBlock_nonzero: "fst (startColumnBlock this param) \<noteq> 0"
  by (auto simp: startColumnBlock_def truthyN_the split: option.splits)

lemma startColumnBlock_unchanged:
  "\<not> changeStartColumn (Some c) param \<Longrightarrow>
     startColumnBlock (Some c) param = (c_startColumn c, False)"
  by (auto simp: startColumnBlock_def changeStartColumn_def split: if_splits)

lemma not_changeBookId: "\<not> changeBookId this param \<Longrightarrow> \<exists>c. this = Some c"
  by (cases this) (simp_all add: changeBookId_def)

lemma reflashLastRow_consistent:
  assumes "reflashLastRow this w = Inr (this', w')" and "consistent this"
  shows "consistent this'"
  using reflashLastRow_Inr[OF assms(1)] assms(2) by (auto simp: consistent_def)

lemma reflashLastColumn_consistent:
  assumes "reflashLastColumn this w = Inr (this', w')" and "consistent this"
  shows "consistent this'"
  using reflashLastColumn_Inr[OF assms(1)] assms(2)
  by (elim exE conjE) (simp add: consistent_def)


lemma reflashLastColumn_frame:
  assumes "reflashLastColumn this w = Inr (this', w')"
  shows "\<exists>lc h. c_startColumn this \<le> lc \<and> int (length h) = lc - c_startColumn this + 1
           \<and> this' = this\<lparr>c_lastColumn := lc, c_columnNum := lc - c_startColumn this + 1,
                           c_header := h\<rparr>"
proof -
  from reflashLastColumn_Inr[OF assms] obtain lc and sh :: sheet where
    le: "c_startColumn this \<le> lc"
    and t: "this' = this\<lparr>c_lastColumn := lc, c_columnNum := lc - c_startColumn this + 1,
               c_header := map (\<lambda>j. cells sh (c_headerRow this) (c_startColumn this + int j))
                             [0..<nat (lc - c_startColumn this + 1)]\<rparr>"
    by blast
  from le have "int (length (map (\<lambda>j. cells sh (c_headerRow this) (c_startColumn this + int j))
                             [0..<nat (lc - c_startColumn this + 1)])) = lc - c_startColumn this + 1"
    by simp
  with le t show ?thesis by blast
qed

lemma reflash_both_consistent:
  assumes r: "reflashLastRow this w = Inr (this2, w2)"
    and c: "reflashLastColumn this2 w2 = Inr (this', w')"
    and h: "c_headerRow this \<noteq> 0" "c_startColumn this \<noteq> 0"
           "c_dataStartRow this = c_headerRow this + 1"
  shows "consistent this'"
proof -
  from reflashLastRow_Inr[OF r] obtain lr where
    t2: "this2 = this\<lparr>c_lastRow := lr, c_rowNum := lr - c_dataStartRow this + 1\<rparr>" by blast
  from reflashLastColumn_frame[OF c] obtain lc hd where
    le: "c_startColumn this2 \<le> lc" "int (length hd) = lc - c_startColumn this2 + 1"
    and t': "this' = this2\<lparr>c_lastColumn := lc, c_columnNum := lc - c_startColumn this2 + 1,
               c_header := hd\<rparr>"
    by blast
  from t2 t' le h show ?thesis by (simp add: consistent_def)
qed

lemma setSheetControllerParam_consistent:
  assumes s: "setSheetControllerParam this param w = Inr (this', w')"
    and i: "\<And>c. this = Some c \<Longrightarrow> consistent c"
  shows "consistent this'"
proof -
  from setSheetControllerParam_Inr[OF s] obtain book sn sh w1 where
    r: "if changeBookId this param \<or> changeSheetName this param
                \<or> changeHeaderRow this param \<or> changeStartColumn this param
            then \<exists>this2 w2. reflashLastRow (configured this param book sn sh) w1 = Inr (this2, w2)
                            \<and> reflashLastColumn this2 w2 = Inr (this', w')
            else this' = configured this param book sn sh \<and> w' = w1"
    by blast
  have d: "fst (snd (headerRowBlock this param)) = fst (headerRowBlock this param) + 1"
    using i by (intro headerRowBlock_dataStartRow) (simp add: consistent_def)
  show ?thesis
  proof (cases "changeBookId this param \<or> changeSheetName this param
                \<or> changeHeaderRow this param \<or> changeStartColumn this param")
    case True
    with r obtain this2 w2 where
      "reflashLastRow (configured this param book sn sh) w1 = Inr (this2, w2)"
      "reflashLastColumn this2 w2 = Inr (this', w')" by auto
    then show ?thesis
      by (rule reflash_both_consistent)
         (simp_all add: configured_def headerRowBlock_nonzero startColumnBlock_nonzero d)
  next
    case False
    then obtain c where c: "this = Some c" using not_changeBookId by blast
    from False r have t: "this' = configured this param book sn sh" by simp
    from False c have "headerRowBlock this param = (c_headerRow c, c_dataStartRow c, False)"
      "startColumnBlock this param = (c_startColumn c, False)"
      by (simp_all add: headerRowBlock_unchanged startColumnBlock_unchanged)
    with t c i[OF c] show ?thesis by (simp add: configured_def consistent_def)
  qed
qed

lemma outputHeader_Inr:
  assumes "outputHeader this w headerArray = Inr (rng, this', w')"
  shows "\<exists>w1. getRange this w \<lparr>a_startRow = c_headerRow this, a_startColumn = c_startColumn this,
                             a_rowNum = None, a_columnNum = Some (int (length headerArray))\<rparr> = Inr rng
           \<and> setValues w rng [headerArray] = Inr w1
           \<and> reflashLastColumn this w1 = Inr (this', w')"
  using assms by (auto simp: outputHeader_def bindE_eq_Inr)

lemma outputDataArea_Inr:
  assumes "outputDataArea this w outputDataArray = Inr (rng, this', w')"
  shows "\<exists>w1. outputDataArray \<noteq> []
           \<and> getRange this w \<lparr>a_startRow = c_dataStartRow this, a_startColumn = c_startColumn this,
                                  a_rowNum = Some (int (length outputDataArray)),
                                  a_columnNum = Some (int (length (hd outputDataArray)))\<rparr> = Inr rng
           \<and> setValues w rng outputDataArray = Inr w1
           \<and> reflashLastRow this w1 = Inr (this', w')"
  using assms by (auto simp: outputDataArea_def bindE_eq_Inr split: list.splits)

lemma reachedWithoutThrow_consistent: "reachedWithoutThrow this \<Longrightarrow> consistent this"
proof (induction rule: reachedWithoutThrow.induct)
  case (constructed param w this w')
  then show ?case
    by (auto simp: newSheetController_def intro: setSheetControllerParam_consistent)
next
  case (updated this param w this' w')
  then show ?case by (auto intro: setSheetControllerParam_consistent)
next
  case (lastRowReflashed this w this' w')
  then show ?case by (auto intro: reflashLastRow_consistent)
next
  case (lastColumnReflashed this w this' w')
  then show ?case by (auto intro: reflashLastColumn_consistent)
next
  case (headerOutput this w headerArray rng this' w')
  from outputHeader_Inr[OF headerOutput(2)] headerOutput(3) show ?case
    by (auto intro: reflashLastColumn_consistent)
next
  case (dataAreaOutput this w outputDataArray rng this' w')
  from outputDataArea_Inr[OF dataAreaOutput(2)] dataAreaOutput(3) show ?case
    by (auto intro: reflashLastRow_consistent)
qed

lemma reachedWithoutThrow_exController: "reachedWithoutThrow exController"
  using constructor_example by (rule reachedWithoutThrow.constructed)

lemma reachable_exController: "reachable exController"
  using constructor_example by (rule reachable.constructed)

subsection \<open>The scans read the sheets only\<close>

lemmas eval_defs =
  newSheetController_def setSheetControllerParam_def bookInstance_def sheetInstance_def
  headerRowBlock_def startColumnBlock_def keyColumnBlock_def openById_def freshCache_def
  reflashLastRow_def reflashLastColumn_def getLastRow_def getLastColumn_def getMaxRows_def
  lookupSheet_def sheetGetRange_def getNextDataCell_def getValue_def getValues_def
  getHeaderRange_def getRange_def orOne_def cellsAhead_def jumpSteps_def hasData_def upt_rec

lemma lookupSheet_same_books: "books wb = books w \<Longrightarrow> lookupSheet wb ref = lookupSheet w ref"
  by (simp add: lookupSheet_def)

lemma getLastRow_lookup:
  "lookupSheet w (c_sheet this) = Inr sh \<Longrightarrow>
     getLastRow this w =
       (if 1 \<le> maxRows sh \<and> 1 \<le> c_keyColumn this \<and> c_keyColumn this \<le> maxColumns sh
        then Inr (if truthy (cells sh (maxRows sh) (c_keyColumn this))
                     \<and> maxRows sh - int (jumpSteps (hasData (cells sh (maxRows sh) (c_keyColumn this)))
                                          (cellsAhead sh UP (maxRows sh) (c_keyColumn this)))
                        \<le> c_headerRow this
                  then maxRows sh
                  else maxRows sh - int (jumpSteps (hasData (cells sh (maxRows sh) (c_keyColumn this)))
                                          (cellsAhead sh UP (maxRows sh) (c_keyColumn this))),
                  w\<lparr>scanLog := scanLog w @ [(UP, c_sheet this, maxRows sh, c_keyColumn this)]\<rparr>)
        else Inl PlatformError)"
  by (simp add: getLastRow_def getMaxRows_def sheetGetRange_def getNextDataCell_def
        getValue_def Let_def)

lemma getLastRow_lookup_fails:
  "lookupSheet w (c_sheet this) = Inl e \<Longrightarrow> getLastRow this w = Inl e"
  by (simp add: getLastRow_def getMaxRows_def)

lemma getLastColumn_lookup:
  "lookupSheet w (c_sheet this) = Inr sh \<Longrightarrow>
     getLastColumn this w =
       (if 1 \<le> c_headerRow this \<and> c_headerRow this \<le> maxRows sh
           \<and> 1 \<le> c_startColumn this \<and> c_startColumn this \<le> maxColumns sh
        then Inr (c_startColumn this
                    + int (jumpSteps (hasData (cells sh (c_headerRow this) (c_startColumn this)))
                             (cellsAhead sh NEXT (c_headerRow this) (c_startColumn this))),
                  w\<lparr>scanLog := scanLog w @ [(NEXT, c_sheet this, c_headerRow this, c_startColumn this)]\<rparr>)
        else Inl PlatformError)"
  by (simp add: getLastColumn_def sheetGetRange_def getNextDataCell_def Let_def)

lemma getLastColumn_lookup_fails:
  "lookupSheet w (c_sheet this) = Inl e \<Longrightarrow> getLastColumn this w = Inl e"
  by (simp add: getLastColumn_def sheetGetRange_def)

lemma getLastRow_fst_books:
  assumes "books wb = books w"
  shows "map_sum id fst (getLastRow this wb) = map_sum id fst (getLastRow this w)"
proof (cases "lookupSheet w (c_sheet this)")
  case (Inl e)
  moreover from Inl have "lookupSheet wb (c_sheet this) = Inl e"
    by (simp add: lookupSheet_same_books[OF assms])
  ultimately show ?thesis by (simp add: getLastRow_lookup_fails)
next
  case (Inr sh)
  moreover from Inr have "lookupSheet wb (c_sheet this) = Inr sh"
    by (simp add: lookupSheet_same_books[OF assms])
  ultimately show ?thesis by (simp add: getLastRow_lookup)
qed

lemma getLastRow_same_books:
  assumes "getLastRow this w = Inr (lr, w1)" and "books wb = books w"
  shows "\<exists>wb1. getLastRow this wb = Inr (lr, wb1)"
proof -
  from getLastRow_fst_books[OF assms(2), of this] assms(1)
  have "map_sum id fst (getLastRow this wb) = Inr lr" by simp
  then show ?thesis by (cases "getLastRow this wb") auto
qed

lemma getLastColumn_fst_books:
  assumes "books wb = books w"
  shows "map_sum id fst (getLastColumn this wb) = map_sum id fst (getLastColumn this w)"
proof (cases "lookupSheet w (c_sheet this)")
  case (Inl e)
  moreover from Inl have "lookupSheet wb (c_sheet this) = Inl e"
    by (simp add: lookupSheet_same_books[OF assms])
  ultimately show ?thesis by (simp add: getLastColumn_lookup_fails)
next
  case (Inr sh)
  moreover from Inr have "lookupSheet wb (c_sheet this) = Inr sh"
    by (simp add: lookupSheet_same_books[OF assms])
  ultimately show ?thesis by (simp add: getLastColumn_lookup)
qed

lemma getLastColumn_same_books:
  assumes "getLastColumn this w = Inr (lc, w1)" and "books wb = books w"
  shows "\<exists>wb1. getLastColumn this wb = Inr (lc, wb1)"
proof -
  from getLastColumn_fst_books[OF assms(2), of this] assms(1)
  have "map_sum id fst (getLastColumn this wb) = Inr lc" by simp
  then show ?thesis by (cases "getLastColumn this wb") auto
qed

lemma getHeaderRange_header [simp]:
  "getHeaderRange (this\<lparr>c_header := h\<rparr>) w = getHeaderRange this w"
  by (simp add: getHeaderRange_def getRange_def)

lemma reflashLastColumn_header:
  assumes "reflashLastColumn this w = Inr (this', w')"
  shows "\<exists>rng. getHeaderRange this' w' = Inr rng \<and> getValues w' rng = Inr [c_header this']"
proof -
  from assms obtain lc w1 rng vals where
    g: "getLastColumn this w = Inr (lc, w1)"
    and r: "getHeaderRange (this\<lparr>c_lastColumn := lc, c_columnNum := lc - c_startColumn this + 1\<rparr>) w1 = Inr rng"
    and v: "getValues w1 rng = Inr vals"
    and t: "this' = this\<lparr>c_lastColumn := lc, c_columnNum := lc - c_startColumn this + 1, c_header := concat vals\<rparr>"
    and w: "w' = w1"
    by (auto simp: reflashLastColumn_def bindE_eq_Inr Let_def)
  from r have "rngNumRows rng = 1"
    by (auto simp: getHeaderRange_def getRange_def orOne_def sheetGetRange_Inr)
  with v obtain row where "vals = [row]"
    by (auto simp: getValues_def bindE_eq_Inr)
  with r v t w show ?thesis by simp
qed

lemma reflashLastRow_fields:
  assumes "reflashLastRow this w = Inr (this', w')"
  shows "c_book this' = c_book this" "c_sheetName this' = c_sheetName this"
    "c_sheet this' = c_sheet this" "c_headerRow this' = c_headerRow this"
    "c_dataStartRow this' = c_dataStartRow this" "c_startColumn this' = c_startColumn this"
    "c_keyColumn this' = c_keyColumn this" "c_lastColumn this' = c_lastColumn this"
    "c_columnNum this' = c_columnNum this" "c_header this' = c_header this"
  using reflashLastRow_Inr[OF assms] by auto

lemma reflashLastColumn_fields:
  assumes "reflashLastColumn this w = Inr (this', w')"
  shows "c_book this' = c_book this" "c_sheetName this' = c_sheetName this"
    "c_sheet this' = c_sheet this" "c_headerRow this' = c_headerRow this"
    "c_dataStartRow this' = c_dataStartRow this" "c_startColumn this' = c_startColumn this"
    "c_keyColumn this' = c_keyColumn this" "c_lastRow this' = c_lastRow this"
    "c_rowNum this' = c_rowNum this"
  using reflashLastColumn_frame[OF assms] by auto

lemma setSheetControllerParam_config:
  assumes "setSheetControllerParam this param w = Inr (this', w')"
  shows "\<exists>book sn sh w1.
           bookInstance this param w = Inr (book, changeBookId this param)
         \<and> sheetInstance this param book (changeBookId this param) w
              = Inr ((sn, sh, changeSheetName this param), w1)
         \<and> c_book this' = book \<and> c_sheetName this' = sn \<and> c_sheet this' = sh
         \<and> c_headerRow this' = fst (headerRowBlock this param)
         \<and> c_dataStartRow this' = fst (snd (headerRowBlock this param))
         \<and> c_startColumn this' = fst (startColumnBlock this param)
         \<and> c_keyColumn this' = keyColumnBlock this param (fst (startColumnBlock this param))
                                  (changeStartColumn this param)"
proof -
  from setSheetControllerParam_Inr[OF assms] obtain book sn sh w1 where
    b: "bookInstance this param w = Inr (book, changeBookId this param)"
    and s: "sheetInstance this param book (changeBookId this param) w
              = Inr ((sn, sh, changeSheetName this param), w1)"
    and r: "if changeBookId this param \<or> changeSheetName this param
                \<or> changeHeaderRow this param \<or> changeStartColumn this param
            then \<exists>this2 w2. reflashLastRow (configured this param book sn sh) w1 = Inr (this2, w2)
                            \<and> reflashLastColumn this2 w2 = Inr (this', w')
            else this' = configured this param book sn sh \<and> w' = w1"
    by blast
  let ?c = "configured this param book sn sh"
  have "c_book this' = c_book ?c \<and> c_sheetName this' = c_sheetName ?c
      \<and> c_sheet this' = c_sheet ?c \<and> c_headerRow this' = c_headerRow ?c
      \<and> c_dataStartRow this' = c_dataStartRow ?c \<and> c_startColumn this' = c_startColumn ?c
      \<and> c_keyColumn this' = c_keyColumn ?c"
  proof (cases "changeBookId this param \<or> changeSheetName this param
                \<or> changeHeaderRow this param \<or> changeStartColumn this param")
    case True
    with r obtain this2 w2 where
      r1: "reflashLastRow ?c w1 = Inr (this2, w2)"
      and r2: "reflashLastColumn this2 w2 = Inr (this', w')" by auto
    show ?thesis
      by (simp add: reflashLastRow_fields[OF r1] reflashLastColumn_fields[OF r2])
  next
    case False
    with r show ?thesis by simp
  qed
  then have "c_book this' = book \<and> c_sheetName this' = sn \<and> c_sheet this' = sh
         \<and> c_headerRow this' = fst (headerRowBlock this param)
         \<and> c_dataStartRow this' = fst (snd (headerRowBlock this param))
         \<and> c_startColumn this' = fst (startColumnBlock this param)
         \<and> c_keyColumn this' = keyColumnBlock this param (fst (startColumnBlock this param))
                                  (changeStartColumn this param)"
    by (simp add: configured_def)
  with b s show ?thesis
    by (intro exI[of _ book] exI[of _ sn] exI[of _ sh] exI[of _ w1]) simp
qed

subsection \<open>The example updates\<close>

lemmas example_defs =
  exParam_def exWorld_def exWorld1_def exBooks_def exSheet_def exCells_def exController_def

lemma rebind_example:
  "setSheetControllerParam (Some exController) rebindParam exWorld1 = Inr (exRebound, exWorld2)"
  by (simp add: eval_defs example_defs rebindParam_def exRebound_def exWorld2_def)

lemma startColumn7_example:
  "setSheetControllerParam (Some exController) startColumn7Param exWorld1 = Inr (exMoved, exWorld3)"
  by (simp add: eval_defs example_defs startColumn7Param_def exMoved_def exWorld3_def)

lemma headerRow5_example:
  "setSheetControllerParam (Some exController) headerRow5Param exWorld1 = Inr (exLowered, exWorld4)"
  by (simp add: eval_defs example_defs headerRow5Param_def exLowered_def exWorld4_def)

lemma keyColumn3_example:
  "setSheetControllerParam (Some exController) keyColumn3Param exWorld1
     = Inr (exController\<lparr>c_keyColumn := 3\<rparr>, exWorld1)"
  by (simp add: eval_defs example_defs keyColumn3Param_def)


lemma changeStartColumn_iff:
  "changeStartColumn this param \<longleftrightarrow>
     truthyN (p_startColumn param) \<or> this = None \<or> (\<exists>c. this = Some c \<and> c_startColumn c = 0)"
  by (auto simp: changeStartColumn_def startColumnBlock_def split: option.splits)

lemma changeHeaderRow_iff:
  "changeHeaderRow this param \<longleftrightarrow>
     truthyN (p_headerRow param) \<or> this = None \<or> (\<exists>c. this = Some c \<and> c_headerRow c = 0)"
  by (auto simp: changeHeaderRow_def headerRowBlock_def split: option.splits)

subsection \<open>Writing a row\<close>

lemma map_of_replace:
  "map_of (map (\<lambda>p. if fst p = n then (fst p, v) else p) shs) n
     = (case map_of shs n of None \<Rightarrow> None | Some u \<Rightarrow> Some v)"
  by (induction shs) auto

lemma lookupSheet_putSheet:
  "lookupSheet w ref = Inr sh \<Longrightarrow> lookupSheet (putSheet w ref sh') ref = Inr sh'"
  by (auto simp: lookupSheet_def putSheet_def map_of_replace split: option.splits)

lemma scanLog_putSheet [simp]: "scanLog (putSheet w ref sh) = scanLog w"
  by (simp add: putSheet_def)

lemma setValues_row:
  assumes "lookupSheet w ref = Inr sh"
  shows "setValues w \<lparr>rngSheet = ref, rngRow = r, rngColumn = c, rngNumRows = 1,
                       rngNumColumns = int (length row)\<rparr> [row]
         = Inr (putSheet w ref (sh\<lparr>cells := writeCells \<lparr>rngSheet = ref, rngRow = r, rngColumn = c,
                   rngNumRows = 1, rngNumColumns = int (length row)\<rparr> [row] (cells sh)\<rparr>))"
  using assms by (simp add: setValues_def)

lemma writeCells_row:
  "writeCells \<lparr>rngSheet = ref, rngRow = r, rngColumn = c, rngNumRows = 1,
               rngNumColumns = int (length row)\<rparr> [row] old r' c'
   = (if r' = r \<and> c \<le> c' \<and> c' < c + int (length row) then row ! nat (c' - c) else old r' c')"
  by (auto simp: writeCells_def)

lemma reflashLastColumn_succeeds:
  assumes sh: "lookupSheet w (c_sheet this) = Inr sh"
    and bd: "1 \<le> c_headerRow this" "c_headerRow this \<le> maxRows sh"
            "1 \<le> c_startColumn this" "c_startColumn this \<le> maxColumns sh"
  shows "\<exists>this'. reflashLastColumn this w
           = Inr (this', w\<lparr>scanLog := scanLog w @ [(NEXT, c_sheet this, c_headerRow this,
                                                    c_startColumn this)]\<rparr>)"
proof -
  let ?n = "jumpSteps (hasData (cells sh (c_headerRow this) (c_startColumn this)))
              (cellsAhead sh NEXT (c_headerRow this) (c_startColumn this))"
  let ?w1 = "w\<lparr>scanLog := scanLog w @ [(NEXT, c_sheet this, c_headerRow this, c_startColumn this)]\<rparr>"
  have g: "getLastColumn this w = Inr (c_startColumn this + int ?n, ?w1)"
    using bd by (simp add: getLastColumn_lookup[OF sh])
  have "?n \<le> nat (maxColumns sh - c_startColumn this)"
    using jumpSteps_le[of _ "cellsAhead sh NEXT (c_headerRow this) (c_startColumn this)"]
    by (simp add: length_cellsAhead_NEXT)
  with bd have le: "c_startColumn this + int ?n \<le> maxColumns sh" by linarith
  have "\<exists>rng. getHeaderRange (this\<lparr>c_lastColumn := c_startColumn this + int ?n,
                     c_columnNum := c_startColumn this + int ?n - c_startColumn this + 1\<rparr>) ?w1 = Inr rng"
    using sh bd le
    by (simp add: getHeaderRange_def getRange_def orOne_def sheetGetRange_def Let_def)
  then obtain rng where r: "getHeaderRange (this\<lparr>c_lastColumn := c_startColumn this + int ?n,
                     c_columnNum := c_startColumn this + int ?n - c_startColumn this + 1\<rparr>) ?w1 = Inr rng"
    by blast
  then have "rngSheet rng = c_sheet this"
    by (auto simp: getHeaderRange_def getRange_def sheetGetRange_Inr)
  with sh have "\<exists>vals. getValues ?w1 rng = Inr vals" by (simp add: getValues_def)
  with g r show ?thesis by (auto simp: reflashLastColumn_def Let_def)
qed

subsection \<open>Objects left behind by calls\<close>

lemma reflashLastRow_this_eq:
  "reflashLastRow_this this w =
     (case reflashLastRow this w of Inl e \<Rightarrow> this | Inr (this', w') \<Rightarrow> this')"
  by (cases "getLastRow this w") (auto simp: reflashLastRow_this_def reflashLastRow_def)

lemma reflashLastColumn_this_eq:
  "reflashLastColumn_this this w =
     (case reflashLastColumn this w of Inl e \<Rightarrow> this | Inr (this', w') \<Rightarrow> this')"
proof (cases "getLastColumn this w")
  case (Inl e)
  then show ?thesis by (simp add: reflashLastColumn_this_def reflashLastColumn_def)
next
  case (Inr r)
  obtain lc w1 where r: "r = (lc, w1)" by (cases r)
  let ?this1 = "this\<lparr>c_lastColumn := lc, c_columnNum := lc - c_startColumn this + 1\<rparr>"
  from Inr r have g: "getLastColumn this w = Inr (lc, w1)" by simp
  from getLastColumn_Inr[OF g] obtain sh :: sheet where
    "lookupSheet w (c_sheet this) = Inr sh"
    "1 \<le> c_headerRow this" "c_headerRow this \<le> maxRows sh"
    "1 \<le> c_startColumn this" "c_startColumn this \<le> maxColumns sh"
    by auto
  from reflashLastColumn_succeeds[OF this] obtain this' w' where
    ok: "reflashLastColumn this w = Inr (this', w')" by blast
  with g obtain rng vals where
    h: "getHeaderRange ?this1 w1 = Inr rng" "getValues w1 rng = Inr vals"
    and t: "this' = ?this1\<lparr>c_header := concat vals\<rparr>"
    by (auto simp: reflashLastColumn_def bindE_eq_Inr Let_def)
  from g h t have "reflashLastColumn_this this w = this'"
    by (simp add: reflashLastColumn_this_def Let_def)
  with ok show ?thesis by simp
qed

lemma setSheetControllerParam_this_returned:
  assumes "setSheetControllerParam (Some this) param w = Inr (this', w')"
  shows "setSheetControllerParam_this this param w = this'"
proof -
  from setSheetControllerParam_Inr[OF assms] obtain book sn sh w1 where
    b: "bookInstance (Some this) param w = Inr (book, changeBookId (Some this) param)"
    and s: "sheetInstance (Some this) param book (changeBookId (Some this) param) w
              = Inr ((sn, sh, changeSheetName (Some this) param), w1)"
    and r: "if changeBookId (Some this) param \<or> changeSheetName (Some this) param
                \<or> changeHeaderRow (Some this) param \<or> changeStartColumn (Some this) param
            then \<exists>this2 w2. reflashLastRow (configured (Some this) param book sn sh) w1 = Inr (this2, w2)
                            \<and> reflashLastColumn this2 w2 = Inr (this', w')
            else this' = configured (Some this) param book sn sh \<and> w' = w1"
    by blast
  show ?thesis
  proof (cases "changeBookId (Some this) param \<or> changeSheetName (Some this) param
                \<or> changeHeaderRow (Some this) param \<or> changeStartColumn (Some this) param")
    case True
    with r obtain this2 w2 where
      "reflashLastRow (configured (Some this) param book sn sh) w1 = Inr (this2, w2)"
      "reflashLastColumn this2 w2 = Inr (this', w')" by auto
    with True b s show ?thesis
      by (simp add: setSheetControllerParam_this_def reflashLastColumn_this_eq)
  next
    case False
    with r b s show ?thesis by (simp add: setSheetControllerParam_this_def)
  qed
qed

lemma outputHeader_this_returned:
  assumes "outputHeader this w headerArray = Inr (rng, this', w')"
  shows "outputHeader_this this w headerArray = this'"
  using outputHeader_Inr[OF assms]
  by (auto simp: outputHeader_this_def reflashLastColumn_this_eq)

lemma outputDataArea_this_returned:
  assumes "outputDataArea this w outputDataArray = Inr (rng, this', w')"
  shows "outputDataArea_this this w outputDataArray = this'"
  using outputDataArea_Inr[OF assms]
  by (cases outputDataArray) (auto simp: outputDataArea_this_def reflashLastRow_this_eq)

lemma consistent_settled: "consistent c \<Longrightarrow> settled c"
  by (simp add: consistent_def settled_def)

lemma reflashLastRow_settled:
  assumes "reflashLastRow this w = Inr (this', w')" and "settled this"
  shows "settled this'"
  using reflashLastRow_fields[OF assms(1)] assms(2) by (simp add: settled_def)

lemma reflashLastRow_this_settled: "settled this \<Longrightarrow> settled (reflashLastRow_this this w)"
  by (cases "reflashLastRow this w")
     (auto simp: reflashLastRow_this_eq intro: reflashLastRow_settled)

lemma reflashLastColumn_settled:
  assumes "reflashLastColumn this w = Inr (this', w')" and "settled this"
  shows "settled this'"
  using reflashLastColumn_fields[OF assms(1)] reflashLastColumn_header_length[OF assms(1)]
    assms(2)
  by (simp add: settled_def)

lemma reflashLastColumn_this_settled:
  "settled this \<Longrightarrow> settled (reflashLastColumn_this this w)"
  by (cases "reflashLastColumn this w")
     (auto simp: reflashLastColumn_this_eq intro: reflashLastColumn_settled)

lemma configured_settled:
  assumes "settled this"
  shows "settled (configured (Some this) param book sn sh)"
proof -
  have "fst (snd (headerRowBlock (Some this) param)) = fst (headerRowBlock (Some this) param) + 1"
    using assms by (intro headerRowBlock_dataStartRow) (simp add: settled_def)
  with assms show ?thesis
    by (simp add: settled_def configured_def headerRowBlock_nonzero startColumnBlock_nonzero)
qed

lemma setSheetControllerParam_this_settled:
  assumes "settled this"
  shows "settled (setSheetControllerParam_this this param w)"
proof (cases "bookInstance (Some this) param w")
  case (Inl e)
  with assms show ?thesis by (simp add: setSheetControllerParam_this_def)
next
  case (Inr bk)
  obtain book cb where bk: "bk = (book, cb)" by (cases bk)
  show ?thesis
  proof (cases "sheetInstance (Some this) param book cb w")
    case (Inl e)
    with Inr bk assms show ?thesis
      by (simp add: setSheetControllerParam_this_def settled_def)
  next
    case (Inr r)
    obtain sn sh cs w1 where r: "r = ((sn, sh, cs), w1)" by (cases r) auto
    let ?c = "configured (Some this) param book sn sh"
    have c: "settled ?c" using assms by (rule configured_settled)
    show ?thesis
    proof (cases "cb \<or> cs \<or> changeHeaderRow (Some this) param
                    \<or> changeStartColumn (Some this) param")
      case False
      with \<open>bookInstance (Some this) param w = Inr bk\<close> bk Inr r c show ?thesis
        by (simp add: setSheetControllerParam_this_def)
    next
      case True
      show ?thesis
      proof (cases "reflashLastRow ?c w1")
        case (Inl e)
        with True \<open>bookInstance (Some this) param w = Inr bk\<close> bk Inr r c show ?thesis
          by (simp add: setSheetControllerParam_this_def)
      next
        case (Inr q)
        obtain this2 w2 where q: "q = (this2, w2)" by (cases q)
        from Inr q c have "settled this2" by (auto intro: reflashLastRow_settled)
        then have "settled (reflashLastColumn_this this2 w2)"
          by (rule reflashLastColumn_this_settled)
        with True \<open>bookInstance (Some this) param w = Inr bk\<close> bk
          \<open>sheetInstance (Some this) param book cb w = Inr r\<close> r Inr q
        show ?thesis by (simp add: setSheetControllerParam_this_def)
      qed
    qed
  qed
qed

lemma outputHeader_this_settled:
  "settled this \<Longrightarrow> settled (outputHeader_this this w headerArray)"
  by (auto simp: outputHeader_this_def reflashLastColumn_this_settled split: sum.splits)

lemma outputDataArea_this_settled:
  "settled this \<Longrightarrow> settled (outputDataArea_this this w outputDataArray)"
  by (auto simp: outputDataArea_this_def reflashLastRow_this_settled
           split: sum.splits list.splits)

lemma reachable_settled: "reachable this \<Longrightarrow> settled this"
proof (induction rule: reachable.induct)
  case (constructed param w this w')
  then have "consistent this"
    by (auto simp: newSheetController_def intro: setSheetControllerParam_consistent)
  then show ?case by (rule consistent_settled)
next
  case (updated this param w)
  then show ?case by (simp add: setSheetControllerParam_this_settled)
next
  case (lastRowReflashed this w)
  then show ?case by (simp add: reflashLastRow_this_settled)
next
  case (lastColumnReflashed this w)
  then show ?case by (simp add: reflashLastColumn_this_settled)
next
  case (headerOutput this w headerArray)
  then show ?case by (simp add: outputHeader_this_settled)
next
  case (dataAreaOutput this w outputDataArray)
  then show ?case by (simp add: outputDataArea_this_settled)
qed

lemma reachable_nonzero:
  "reachable this \<Longrightarrow> c_headerRow this \<noteq> 0 \<and> c_startColumn this \<noteq> 0"
  using reachable_settled[of this] by (simp add: settled_def)

text \<open>A call that returns leaves the object it returns, so the controllers on which no call
  has thrown are among the reachable ones.\<close>

lemma reachedWithoutThrow_reachable: "reachedWithoutThrow this \<Longrightarrow> reachable this"
proof (induction rule: reachedWithoutThrow.induct)
  case (constructed param w this w')
  then show ?case by (rule reachable.constructed)
next
  case (updated this param w this' w')
  from reachable.updated[OF updated(3), of param w]
    setSheetControllerParam_this_returned[OF updated(2)]
  show ?case by simp
next
  case (lastRowReflashed this w this' w')
  from reachable.lastRowReflashed[OF lastRowReflashed(3), of w] lastRowReflashed(2)
  show ?case by (simp add: reflashLastRow_this_eq)
next
  case (lastColumnReflashed this w this' w')
  from reachable.lastColumnReflashed[OF lastColumnReflashed(3), of w] lastColumnReflashed(2)
  show ?case by (simp add: reflashLastColumn_this_eq)
next
  case (headerOutput this w headerArray rng this' w')
  from reachable.headerOutput[OF headerOutput(3), of w headerArray]
    outputHeader_this_returned[OF headerOutput(2)]
  show ?case by simp
next
  case (dataAreaOutput this w outputDataArray rng this' w')
  from reachable.dataAreaOutput[OF dataAreaOutput(3), of w outputDataArray]
    outputDataArea_this_returned[OF dataAreaOutput(2)]
  show ?case by simp
qed

lemma badKey_throws:
  "setSheetControllerParam (Some exController) badKeyParam exWorld1 = Inl PlatformError"
  by (simp add: eval_defs example_defs badKeyParam_def)

lemma badKey_leaves:
  "setSheetControllerParam_this exController badKeyParam exWorld1 = exStale"
  by (simp add: setSheetControllerParam_this_def configured_def changeHeaderRow_def
        changeStartColumn_def eval_defs example_defs badKeyParam_def exStale_def)

lemma repair_example:
  "setSheetControllerParam (Some exStale) keyColumn2Param exWorld1 = Inr (exRepaired, exWorld1)"
  by (simp add: eval_defs example_defs keyColumn2Param_def exStale_def exRepaired_def)

lemma outputDataArea_example:
  "map_sum id (fst \<circ> snd) (outputDataArea exRepaired exWorld1 [[Str ''Cy'']]) = Inr exRepaired"
  by (simp add: outputDataArea_def setValues_def putSheet_def writeCells_def eval_defs
        example_defs exRepaired_def)

lemma reachable_exRepaired: "reachable exRepaired"
proof -
  from reachable.updated[OF reachable_exController, of badKeyParam exWorld1]
  have "reachable exStale" by (simp add: badKey_leaves)
  from reachable.updated[OF this, of keyColumn2Param exWorld1]
  show ?thesis by (simp add: setSheetControllerParam_this_returned[OF repair_example])
qed

lemma zero_constructor_example:
  "newSheetController zeroParam zeroWorld
     = Inr (zeroController, zeroWorld\<lparr>scanLog := [(UP, (''b1'', ''Sheet1''), 3, 1),
                                                  (NEXT, (''b1'', ''Sheet1''), 1, 1)]\<rparr>)"
  by (simp add: eval_defs zeroParam_def zeroWorld_def zeroBooks_def zeroSheet_def zeroCells_def
        zeroController_def)

subsection \<open>indexOf\<close>

lemma lookup_exWorld [simp]:
  "lookupSheet (exWorld\<lparr>scanLog := l\<rparr>) (''b1'', ''Sheet1'') = Inr exSheet"
  "lookupSheet exWorld (''b1'', ''Sheet1'') = Inr exSheet"
  by (simp_all add: lookupSheet_def exWorld_def exBooks_def)

lemma indexOf_ge: "- 1 \<le> indexOf xs x"
  by (induction xs) (auto simp: Let_def)

lemma indexOf_none: "indexOf xs x = - 1 \<longleftrightarrow> x \<notin> set xs"
proof (induction xs)
  case Nil
  show ?case by simp
next
  case (Cons y ys)
  have "- 1 \<le> indexOf ys x" by (rule indexOf_ge)
  with Cons show ?case by (auto simp: Let_def)
qed

lemma indexOf_first:
  "x \<in> set xs \<Longrightarrow>
     \<exists>i < length xs. indexOf xs x = int i \<and> xs ! i = x \<and> (\<forall>j < i. xs ! j \<noteq> x)"
proof (induction xs)
  case Nil
  then show ?case by simp
next
  case (Cons y ys)
  show ?case
  proof (cases "y = x")
    case True
    then show ?thesis by (intro exI[of _ 0]) simp
  next
    case False
    with Cons.prems have "x \<in> set ys" by simp
    from Cons.IH[OF this] obtain i where i: "i < length ys" "indexOf ys x = int i"
      "ys ! i = x" "\<forall>j < i. ys ! j \<noteq> x" by blast
    have "\<forall>j < Suc i. (y # ys) ! j \<noteq> x"
    proof (intro allI impI)
      fix j assume "j < Suc i"
      then show "(y # ys) ! j \<noteq> x" using False i(4) by (cases j) auto
    qed
    with i False show ?thesis by (intro exI[of _ "Suc i"]) (simp add: Let_def)
  qed
qed

section \<open>Header lookup\<close>

text \<open>
  Claim C9. \<open>getHeaderArrayIndexByColumnName\<close> returns the 0-based position of the first
  element of the cached header equal to the column name, and throws "column not found"
  exactly when no element is equal to it; \<open>getHeaderColumnByColumnName\<close> returns that
  position plus the start column, and throws the same error in the same case. Both are
  functions of the controller's cached header and start column alone (two controllers that
  agree on these give the same results): they take no world and return none, so they
  neither read nor change the sheet or the cache.
\<close>

theorem header_lookup:
  "(getHeaderArrayIndexByColumnName this n = Inl ColumnNotFoundError \<longleftrightarrow> n \<notin> set (c_header this))
   \<and> (n \<notin> set (c_header this) \<longrightarrow> getHeaderColumnByColumnName this n = Inl ColumnNotFoundError)
   \<and> (n \<in> set (c_header this) \<longrightarrow>
        (\<exists>i < length (c_header this).
           getHeaderArrayIndexByColumnName this n = Inr (int i)
           \<and> c_header this ! i = n
           \<and> (\<forall>j < i. c_header this ! j \<noteq> n)
           \<and> getHeaderColumnByColumnName this n = Inr (int i + c_startColumn this)))
   \<and> (c_header other = c_header this \<and> c_startColumn other = c_startColumn this \<longrightarrow>
        getHeaderArrayIndexByColumnName other n = getHeaderArrayIndexByColumnName this n
        \<and> getHeaderColumnByColumnName other n = getHeaderColumnByColumnName this n)"
proof -
  have frame: "c_header other = c_header this \<and> c_startColumn other = c_startColumn this \<longrightarrow>
        getHeaderArrayIndexByColumnName other n = getHeaderArrayIndexByColumnName this n
        \<and> getHeaderColumnByColumnName other n = getHeaderColumnByColumnName this n"
    by (simp add: getHeaderArrayIndexByColumnName_def getHeaderColumnByColumnName_def)
  show ?thesis
proof (cases "n \<in> set (c_header this)")
  case True
  from indexOf_first[OF True] obtain i where i: "i < length (c_header this)"
    "indexOf (c_header this) n = int i" "c_header this ! i = n"
    "\<forall>j < i. c_header this ! j \<noteq> n" by blast
  have idx: "getHeaderArrayIndexByColumnName this n = Inr (int i)"
    using i(2) by (simp add: getHeaderArrayIndexByColumnName_def)
  then have "getHeaderColumnByColumnName this n = Inr (int i + c_startColumn this)"
    by (simp add: getHeaderColumnByColumnName_def)
  with True i idx frame show ?thesis by auto
next
  case False
  then have "indexOf (c_header this) n = - 1" by (simp add: indexOf_none)
  then have idx: "getHeaderArrayIndexByColumnName this n = Inl ColumnNotFoundError"
    by (simp add: getHeaderArrayIndexByColumnName_def)
  then have "getHeaderColumnByColumnName this n = Inl ColumnNotFoundError"
    by (simp add: getHeaderColumnByColumnName_def)
  with False idx frame show ?thesis by simp
qed
qed

text \<open>
  The header \<open>Name, Age, City\<close> with start column 2: \<open>Age\<close> is at position 1 and in
  column 3; \<open>Missing\<close> is not found.
\<close>

theorem header_lookup_witness:
  "getHeaderArrayIndexByColumnName exController (Str ''Age'') = Inr 1
   \<and> getHeaderColumnByColumnName exController (Str ''Age'') = Inr 3
   \<and> getHeaderArrayIndexByColumnName exController (Str ''Missing'') = Inl ColumnNotFoundError
   \<and> getHeaderColumnByColumnName exController (Str ''Missing'') = Inl ColumnNotFoundError"
proof -
  have hd: "c_header exController = [Str ''Name'', Str ''Age'', Str ''City'']"
    and sc: "c_startColumn exController = 2"
    by (simp_all add: exController_def)
  have "Str ''Age'' \<in> set (c_header exController)" by (simp add: hd)
  with header_lookup[of exController "Str ''Age''" exController] obtain i where
    i: "i < length (c_header exController)"
       "getHeaderArrayIndexByColumnName exController (Str ''Age'') = Inr (int i)"
       "c_header exController ! i = Str ''Age''"
       "\<forall>j < i. c_header exController ! j \<noteq> Str ''Age''"
       "getHeaderColumnByColumnName exController (Str ''Age'') = Inr (int i + c_startColumn exController)"
    by blast
  have "i = 1"
  proof -
    from i(1) have "i = 0 \<or> i = 1 \<or> i = 2" by (auto simp: hd)
    with i(3) show ?thesis by (auto simp: hd)
  qed
  moreover have "Str ''Missing'' \<notin> set (c_header exController)" by (simp add: hd)
  ultimately show ?thesis
    using i(2,5) header_lookup[of exController "Str ''Missing''" exController]
    by (simp add: sc)
qed

section \<open>Ranges have at least one row and one column\<close>

text \<open>
  Claim C10. In \<open>getRange\<close> a row or column count of 0 is treated exactly like an absent
  one: both are replaced by 1. Hence the platform is never asked for a count of 0, a range
  that is returned has at least one row and one column, and the header range of a controller
  whose cached column count is 0 is one column wide.
\<close>

theorem getRange_never_empty:
  "getRange this w (a\<lparr>a_rowNum := Some 0\<rparr>) = getRange this w (a\<lparr>a_rowNum := None\<rparr>)
   \<and> getRange this w (a\<lparr>a_columnNum := Some 0\<rparr>) = getRange this w (a\<lparr>a_columnNum := None\<rparr>)
   \<and> getRange this w a =
       sheetGetRange w (c_sheet this) (a_startRow a) (a_startColumn a)
         (if a_rowNum a = None \<or> a_rowNum a = Some 0 then 1 else the (a_rowNum a))
         (if a_columnNum a = None \<or> a_columnNum a = Some 0 then 1 else the (a_columnNum a))
   \<and> (\<forall>rng. getRange this w a = Inr rng \<longrightarrow> 1 \<le> rngNumRows rng \<and> 1 \<le> rngNumColumns rng)
   \<and> (\<forall>rng. c_columnNum this = 0 \<and> getHeaderRange this w = Inr rng \<longrightarrow>
         rngNumRows rng = 1 \<and> rngNumColumns rng = 1)"
proof -
  have one: "\<And>r c nr nc rng. sheetGetRange w (c_sheet this) r c nr nc = Inr rng \<Longrightarrow>
               rngNumRows rng = nr \<and> rngNumColumns rng = nc \<and> 1 \<le> nr \<and> 1 \<le> nc"
    by (auto simp: sheetGetRange_def bindE_eq_Inr split: if_splits)
  have a: "getRange this w (a\<lparr>a_rowNum := Some 0\<rparr>) = getRange this w (a\<lparr>a_rowNum := None\<rparr>)"
    by (simp add: getRange_def orOne_def)
  have b: "getRange this w (a\<lparr>a_columnNum := Some 0\<rparr>) = getRange this w (a\<lparr>a_columnNum := None\<rparr>)"
    by (simp add: getRange_def orOne_def)
  have c: "getRange this w a =
       sheetGetRange w (c_sheet this) (a_startRow a) (a_startColumn a)
         (if a_rowNum a = None \<or> a_rowNum a = Some 0 then 1 else the (a_rowNum a))
         (if a_columnNum a = None \<or> a_columnNum a = Some 0 then 1 else the (a_columnNum a))"
    by (auto simp: getRange_def orOne_def split: option.splits)
  have d: "\<forall>rng. getRange this w a = Inr rng \<longrightarrow> 1 \<le> rngNumRows rng \<and> 1 \<le> rngNumColumns rng"
    using one by (auto simp: getRange_def Let_def)
  have e: "\<forall>rng. c_columnNum this = 0 \<and> getHeaderRange this w = Inr rng \<longrightarrow>
         rngNumRows rng = 1 \<and> rngNumColumns rng = 1"
    using one by (auto simp: getHeaderRange_def getRange_def orOne_def)
  from a b c d e show ?thesis by blast
qed

theorem getRange_never_empty_witness:
  "getRange exController exWorld
       \<lparr>a_startRow = 3, a_startColumn = 2, a_rowNum = Some 0, a_columnNum = None\<rparr>
     = Inr \<lparr>rngSheet = (''b1'', ''Sheet1''), rngRow = 3, rngColumn = 2,
            rngNumRows = 1, rngNumColumns = 1\<rparr>
   \<and> c_columnNum (exController\<lparr>c_columnNum := 0\<rparr>) = 0
   \<and> getHeaderRange (exController\<lparr>c_columnNum := 0\<rparr>) exWorld =
       Inr \<lparr>rngSheet = (''b1'', ''Sheet1''), rngRow = 2, rngColumn = 2,
            rngNumRows = 1, rngNumColumns = 1\<rparr>
   \<and> rngNumColumns \<lparr>rngSheet = (''b1'', ''Sheet1''), rngRow = 2, rngColumn = 2,
            rngNumRows = 1, rngNumColumns = 1\<rparr> = 1"
proof -
  have h: "getHeaderRange (exController\<lparr>c_columnNum := 0\<rparr>) exWorld =
       Inr \<lparr>rngSheet = (''b1'', ''Sheet1''), rngRow = 2, rngColumn = 2,
            rngNumRows = 1, rngNumColumns = 1\<rparr>"
    by (simp add: getHeaderRange_def getRange_def orOne_def sheetGetRange_def exController_def
          exSheet_def)
  have g: "getRange exController exWorld
       \<lparr>a_startRow = 3, a_startColumn = 2, a_rowNum = Some 0, a_columnNum = None\<rparr>
     = Inr \<lparr>rngSheet = (''b1'', ''Sheet1''), rngRow = 3, rngColumn = 2,
            rngNumRows = 1, rngNumColumns = 1\<rparr>"
    by (simp add: getRange_def orOne_def sheetGetRange_def exController_def exSheet_def)
  from h getRange_never_empty[of "exController\<lparr>c_columnNum := 0\<rparr>" exWorld]
  have "c_columnNum (exController\<lparr>c_columnNum := 0\<rparr>) = 0
   \<and> getHeaderRange (exController\<lparr>c_columnNum := 0\<rparr>) exWorld =
       Inr \<lparr>rngSheet = (''b1'', ''Sheet1''), rngRow = 2, rngColumn = 2,
            rngNumRows = 1, rngNumColumns = 1\<rparr>
   \<and> rngNumColumns \<lparr>rngSheet = (''b1'', ''Sheet1''), rngRow = 2, rngColumn = 2,
            rngNumRows = 1, rngNumColumns = 1\<rparr> = 1"
    by simp
  with g show ?thesis by blast
qed

section \<open>The cached counts\<close>

text \<open>
  Claim C5 (invariant I1) says that after any refresh, \<open>outputDataArea\<close> included, both
  \<open>rowNum = lastRow - dataStartRow + 1\<close> and \<open>columnNum = lastColumn - startColumn + 1\<close>
  hold. They need not: an update overwrites the configuration before its refresh, and when
  the refresh throws the cache stays as it was. Here the update \<open>{startColumn: 3,
  keyColumn: 99}\<close> of the example controller throws and leaves start column 3 with the old
  last column 4 and column count 3; the update \<open>{keyColumn: 2}\<close> sets no flag and returns;
  \<open>outputDataArea\<close> then returns, having refreshed the row pair only, and the column count
  is 3 where \<open>lastColumn - startColumn + 1\<close> is 2.
\<close>

theorem boundary_invariant_counterexample:
  "newSheetController exParam exWorld = Inr (exController, exWorld1)
   \<and> setSheetControllerParam (Some exController) badKeyParam exWorld1 = Inl PlatformError
   \<and> setSheetControllerParam_this exController badKeyParam exWorld1 = exStale
   \<and> setSheetControllerParam (Some exStale) keyColumn2Param exWorld1 = Inr (exRepaired, exWorld1)
   \<and> map_sum id (fst \<circ> snd) (outputDataArea exRepaired exWorld1 [[Str ''Cy'']]) = Inr exRepaired
   \<and> reachable exRepaired
   \<and> c_columnNum exRepaired = 3
   \<and> c_lastColumn exRepaired - c_startColumn exRepaired + 1 = 2"
  using constructor_example badKey_throws badKey_leaves repair_example outputDataArea_example
    reachable_exRepaired
  by (simp add: exRepaired_def)

text \<open>
  Claim C5, amended. On any controller, also one left behind by a call that threw: the
  constructor and every update that sets a change flag, when they return, leave both
  equations true; every refresh of the row pair that returns (\<open>reflashLastRow\<close>, directly or
  from \<open>outputDataArea\<close>) leaves \<open>rowNum = lastRow - dataStartRow + 1\<close> true; every
  refresh of the column pair that returns (\<open>reflashLastColumn\<close>, directly or from
  \<open>outputHeader\<close>) leaves \<open>columnNum = lastColumn - startColumn + 1\<close> true. And as long
  as no call on the controller has thrown, both equations hold after every call, so from
  each refresh until the next call.
\<close>

theorem boundary_equations_after_refresh:
  "(setSheetControllerParam this param w = Inr (this', w')
      \<and> (changeBookId this param \<or> changeSheetName this param
           \<or> changeHeaderRow this param \<or> changeStartColumn this param) \<longrightarrow>
        c_rowNum this' = c_lastRow this' - c_dataStartRow this' + 1
        \<and> c_columnNum this' = c_lastColumn this' - c_startColumn this' + 1)
   \<and> (reflashLastRow obj w = Inr (this', w')
        \<or> (\<exists>rng. outputDataArea obj w outputDataArray = Inr (rng, this', w')) \<longrightarrow>
        c_rowNum this' = c_lastRow this' - c_dataStartRow this' + 1)
   \<and> (reflashLastColumn obj w = Inr (this', w')
        \<or> (\<exists>rng. outputHeader obj w headerArray = Inr (rng, this', w')) \<longrightarrow>
        c_columnNum this' = c_lastColumn this' - c_startColumn this' + 1)
   \<and> (reachedWithoutThrow obj \<longrightarrow>
        c_rowNum obj = c_lastRow obj - c_dataStartRow obj + 1
        \<and> c_columnNum obj = c_lastColumn obj - c_startColumn obj + 1)"
proof -
  have row: "c_rowNum c' = c_lastRow c' - c_dataStartRow c' + 1"
    if "reflashLastRow c v = Inr (c', v')" for c v c' v'
    using reflashLastRow_Inr[OF that] by auto
  have col: "c_columnNum c' = c_lastColumn c' - c_startColumn c' + 1"
    if "reflashLastColumn c v = Inr (c', v')" for c v c' v'
    using reflashLastColumn_frame[OF that] by auto
  have a: "setSheetControllerParam this param w = Inr (this', w')
      \<and> (changeBookId this param \<or> changeSheetName this param
           \<or> changeHeaderRow this param \<or> changeStartColumn this param) \<longrightarrow>
        c_rowNum this' = c_lastRow this' - c_dataStartRow this' + 1
        \<and> c_columnNum this' = c_lastColumn this' - c_startColumn this' + 1"
  proof (intro impI, elim conjE)
    assume s: "setSheetControllerParam this param w = Inr (this', w')"
      and d: "changeBookId this param \<or> changeSheetName this param
           \<or> changeHeaderRow this param \<or> changeStartColumn this param"
    from setSheetControllerParam_Inr[OF s] d obtain c1 w1 this2 w2 where
      r1: "reflashLastRow c1 w1 = Inr (this2, w2)"
      and r2: "reflashLastColumn this2 w2 = Inr (this', w')"
      by auto
    from row[OF r1] reflashLastColumn_fields[OF r2] col[OF r2]
    show "c_rowNum this' = c_lastRow this' - c_dataStartRow this' + 1
        \<and> c_columnNum this' = c_lastColumn this' - c_startColumn this' + 1"
      by simp
  qed
  have b: "reflashLastRow obj w = Inr (this', w')
        \<or> (\<exists>rng. outputDataArea obj w outputDataArray = Inr (rng, this', w')) \<longrightarrow>
        c_rowNum this' = c_lastRow this' - c_dataStartRow this' + 1"
    using row outputDataArea_Inr by blast
  have c: "reflashLastColumn obj w = Inr (this', w')
        \<or> (\<exists>rng. outputHeader obj w headerArray = Inr (rng, this', w')) \<longrightarrow>
        c_columnNum this' = c_lastColumn this' - c_startColumn this' + 1"
    using col outputHeader_Inr by blast
  have d: "reachedWithoutThrow obj \<longrightarrow>
        c_rowNum obj = c_lastRow obj - c_dataStartRow obj + 1
        \<and> c_columnNum obj = c_lastColumn obj - c_startColumn obj + 1"
    using reachedWithoutThrow_consistent[of obj] by (simp add: consistent_def)
  from a b c d show ?thesis by blast
qed

theorem boundary_equations_after_refresh_witness:
  "setSheetControllerParam (Some exController) headerRow5Param exWorld1 = Inr (exLowered, exWorld4)
   \<and> changeHeaderRow (Some exController) headerRow5Param
   \<and> c_rowNum exLowered = c_lastRow exLowered - c_dataStartRow exLowered + 1
   \<and> c_columnNum exLowered = c_lastColumn exLowered - c_startColumn exLowered + 1
   \<and> reflashLastRow exRepaired exWorld1
       = Inr (exRepaired, exWorld1\<lparr>scanLog := scanLog exWorld1 @ [(UP, (''b1'', ''Sheet1''), 5, 2)]\<rparr>)
   \<and> c_rowNum exRepaired = c_lastRow exRepaired - c_dataStartRow exRepaired + 1
   \<and> reflashLastColumn exRepaired exWorld1
       = Inr (exRepaired\<lparr>c_lastColumn := 4, c_columnNum := 2,
                          c_header := [Str ''Age'', Str ''City'']\<rparr>,
              exWorld1\<lparr>scanLog := scanLog exWorld1 @ [(NEXT, (''b1'', ''Sheet1''), 2, 3)]\<rparr>)
   \<and> c_columnNum (exRepaired\<lparr>c_lastColumn := 4, c_columnNum := 2,
                                c_header := [Str ''Age'', Str ''City'']\<rparr>)
       = c_lastColumn (exRepaired\<lparr>c_lastColumn := 4, c_columnNum := 2,
                                     c_header := [Str ''Age'', Str ''City'']\<rparr>)
         - c_startColumn (exRepaired\<lparr>c_lastColumn := 4, c_columnNum := 2,
                                        c_header := [Str ''Age'', Str ''City'']\<rparr>) + 1
   \<and> reachedWithoutThrow exController
   \<and> c_rowNum exController = c_lastRow exController - c_dataStartRow exController + 1
   \<and> c_columnNum exController = c_lastColumn exController - c_startColumn exController + 1"
proof -
  let ?w = "exWorld1\<lparr>scanLog := scanLog exWorld1 @ [(UP, (''b1'', ''Sheet1''), 5, 2)]\<rparr>"
  let ?v = "exWorld1\<lparr>scanLog := scanLog exWorld1 @ [(NEXT, (''b1'', ''Sheet1''), 2, 3)]\<rparr>"
  let ?c = "exRepaired\<lparr>c_lastColumn := 4, c_columnNum := 2,
                          c_header := [Str ''Age'', Str ''City'']\<rparr>"
  have f: "changeHeaderRow (Some exController) headerRow5Param"
    by (simp add: changeHeaderRow_iff headerRow5Param_def)
  have r: "reflashLastRow exRepaired exWorld1 = Inr (exRepaired, ?w)"
    by (simp add: eval_defs example_defs exRepaired_def)
  have c: "reflashLastColumn exRepaired exWorld1 = Inr (?c, ?v)"
    by (simp add: eval_defs example_defs exRepaired_def)
  from boundary_equations_after_refresh[of "Some exController" headerRow5Param exWorld1
         exLowered exWorld4 exController "[]" "[]"] headerRow5_example f
  have 1: "c_rowNum exLowered = c_lastRow exLowered - c_dataStartRow exLowered + 1
     \<and> c_columnNum exLowered = c_lastColumn exLowered - c_startColumn exLowered + 1"
    by blast
  from boundary_equations_after_refresh[of None exParam exWorld1 exRepaired ?w exRepaired
         "[]" "[]"] r
  have 2: "c_rowNum exRepaired = c_lastRow exRepaired - c_dataStartRow exRepaired + 1"
    by blast
  from boundary_equations_after_refresh[of None exParam exWorld1 ?c ?v exRepaired
         "[]" "[]"] c
  have 3: "c_columnNum ?c = c_lastColumn ?c - c_startColumn ?c + 1"
    by blast
  from boundary_equations_after_refresh[of None exParam exWorld exController exWorld1
         exController "[]" "[]"] reachedWithoutThrow_exController
  have 4: "c_rowNum exController = c_lastRow exController - c_dataStartRow exController + 1
     \<and> c_columnNum exController = c_lastColumn exController - c_startColumn exController + 1"
    by blast
  from headerRow5_example f r c 1 2 3 4 reachedWithoutThrow_exController
  show ?thesis by blast
qed

text \<open>
  Claim C6 (invariant I2). After every call of \<open>reflashLastColumn\<close> that returns, on any
  controller and any sheet, the cached header has exactly \<open>columnNum\<close> elements; the
  rightward scan never ends left of its start, so \<open>columnNum\<close> is at least 1 then and the
  cases 0 and negative do not arise. The same equation holds for every controller that exists
  at run time.
\<close>

theorem header_length_is_columnNum:
  "(reflashLastColumn this w = Inr (this', w') \<longrightarrow>
      int (length (c_header this')) = c_columnNum this' \<and> 1 \<le> c_columnNum this')
   \<and> (reachable this \<longrightarrow> int (length (c_header this)) = c_columnNum this)"
  using reflashLastColumn_header_length[of this w this' w'] reachable_settled[of this]
  by (simp add: settled_def)

theorem header_length_is_columnNum_witness:
  "reflashLastColumn exController exWorld =
     Inr (exController, exWorld\<lparr>scanLog := [(NEXT, (''b1'', ''Sheet1''), 2, 2)]\<rparr>)
   \<and> reachable exController
   \<and> int (length (c_header exController)) = c_columnNum exController
   \<and> 1 \<le> c_columnNum exController"
proof -
  have r: "reflashLastColumn exController exWorld =
     Inr (exController, exWorld\<lparr>scanLog := [(NEXT, (''b1'', ''Sheet1''), 2, 2)]\<rparr>)"
    by (simp add: reflashLastColumn_def getLastColumn_def getHeaderRange_def getRange_def
          orOne_def sheetGetRange_def getNextDataCell_def getValues_def cellsAhead_def
          jumpSteps_def hasData_def exController_def exSheet_def exCells_def exWorld_def
          exBooks_def lookupSheet_def upt_rec)
  with header_length_is_columnNum[of exController exWorld exController
         "exWorld\<lparr>scanLog := [(NEXT, (''b1'', ''Sheet1''), 2, 2)]\<rparr>"]
       reachable_exController
  show ?thesis by simp
qed

section \<open>Updates\<close>

text \<open>
  Claim C1. For a call of \<open>setSheetControllerParam\<close> on an existing controller that
  returns: if any of the four change flags is set, both cached pairs are recomputed, each by
  its boundary scan. The scan log grows by exactly the upward scan from the last physical row
  in the key column and the rightward scan from the header cell; the cached last row and last
  column are what \<open>getLastRow\<close> and \<open>getLastColumn\<close> return on the resulting state,
  the counts follow from them, and the cached header is the content of the header range. If
  no flag is set, the world (and with it the scan log) is unchanged and all five cached
  properties keep their values.
\<close>

theorem update_refresh_iff_changed:
  assumes "setSheetControllerParam (Some this) param w = Inr (this', w')"
  shows "(changeBookId (Some this) param \<or> changeSheetName (Some this) param
            \<or> changeHeaderRow (Some this) param \<or> changeStartColumn (Some this) param \<longrightarrow>
          (\<exists>m wr wc rng.
              getMaxRows w' (c_sheet this') = Inr m
            \<and> scanLog w' = scanLog w @ [(UP, c_sheet this', m, c_keyColumn this'),
                                         (NEXT, c_sheet this', c_headerRow this', c_startColumn this')]
            \<and> getLastRow this' w' = Inr (c_lastRow this', wr)
            \<and> c_rowNum this' = c_lastRow this' - c_dataStartRow this' + 1
            \<and> getLastColumn this' w' = Inr (c_lastColumn this', wc)
            \<and> c_columnNum this' = c_lastColumn this' - c_startColumn this' + 1
            \<and> getHeaderRange this' w' = Inr rng \<and> getValues w' rng = Inr [c_header this']))
       \<and> (\<not> (changeBookId (Some this) param \<or> changeSheetName (Some this) param
            \<or> changeHeaderRow (Some this) param \<or> changeStartColumn (Some this) param) \<longrightarrow>
          w' = w \<and> c_lastRow this' = c_lastRow this \<and> c_rowNum this' = c_rowNum this
          \<and> c_lastColumn this' = c_lastColumn this \<and> c_columnNum this' = c_columnNum this
          \<and> c_header this' = c_header this)"
proof -
  let ?dirty = "changeBookId (Some this) param \<or> changeSheetName (Some this) param
            \<or> changeHeaderRow (Some this) param \<or> changeStartColumn (Some this) param"
  from setSheetControllerParam_Inr[OF assms] obtain book sn sh w1 where
    s: "sheetInstance (Some this) param book (changeBookId (Some this) param) w
              = Inr ((sn, sh, changeSheetName (Some this) param), w1)"
    and r: "if ?dirty
            then \<exists>this2 w2. reflashLastRow (configured (Some this) param book sn sh) w1 = Inr (this2, w2)
                            \<and> reflashLastColumn this2 w2 = Inr (this', w')
            else this' = configured (Some this) param book sn sh \<and> w' = w1"
    by blast
  let ?c = "configured (Some this) param book sn sh"
  show ?thesis
  proof (cases ?dirty)
    case True
    with r obtain this2 w2 where
      r1: "reflashLastRow ?c w1 = Inr (this2, w2)"
      and r2: "reflashLastColumn this2 w2 = Inr (this', w')" by auto
    from reflashLastRow_Inr[OF r1] obtain lr where
      g1: "getLastRow ?c w1 = Inr (lr, w2)"
      and t2: "this2 = ?c\<lparr>c_lastRow := lr, c_rowNum := lr - c_dataStartRow ?c + 1\<rparr>" by blast
    from getLastRow_Inr[OF g1] obtain sh1 :: sheet where
      l1: "lookupSheet w1 (c_sheet ?c) = Inr sh1"
      and w2: "w2 = w1\<lparr>scanLog := scanLog w1 @ [(UP, c_sheet ?c, maxRows sh1, c_keyColumn ?c)]\<rparr>"
      by blast
    from reflashLastColumn_Inr[OF r2] obtain lc where
      g2: "getLastColumn this2 w2 = Inr (lc, w')" by blast
    from getLastColumn_Inr[OF g2] have
      w': "w' = w2\<lparr>scanLog := scanLog w2 @ [(NEXT, c_sheet this2, c_headerRow this2, c_startColumn this2)]\<rparr>"
      by blast
    note f1 = reflashLastRow_fields[OF r1] and f2 = reflashLastColumn_fields[OF r2]
    have lastRow: "c_lastRow this' = lr" "c_rowNum this' = lr - c_dataStartRow this' + 1"
      using f2 t2 by simp_all
    from reflashLastColumn_frame[OF r2] have
      lastCol: "c_columnNum this' = c_lastColumn this' - c_startColumn this' + 1"
      by auto
    have lc: "c_lastColumn this' = lc"
      using r2 g2 by (auto simp: reflashLastColumn_def bindE_eq_Inr Let_def)
    have bk: "books w' = books w1" using w' w2 by simp
    have m: "getMaxRows w' (c_sheet this') = Inr (maxRows sh1)"
      using l1 w' w2 f1 f2 by (simp add: getMaxRows_def)
    have log: "scanLog w' = scanLog w @ [(UP, c_sheet this', maxRows sh1, c_keyColumn this'),
                                         (NEXT, c_sheet this', c_headerRow this', c_startColumn this')]"
      using w' w2 f1 f2 sheetInstance_Inr(2)[OF s] by simp
    have e1: "getLastRow this' = getLastRow ?c"
      by (rule ext) (simp add: getLastRow_def f1 f2)
    have e2: "getLastColumn this' = getLastColumn this2"
      by (rule ext) (simp add: getLastColumn_def f2)
    from getLastRow_same_books[OF g1 bk] obtain wr where
      "getLastRow this' w' = Inr (c_lastRow this', wr)" by (auto simp: e1 lastRow)
    moreover have bk2: "books w' = books w2" using w' by simp
    from getLastColumn_same_books[OF g2 bk2] obtain wc where
      "getLastColumn this' w' = Inr (c_lastColumn this', wc)" by (auto simp: e2 lc)
    moreover from reflashLastColumn_header[OF r2] obtain rng where
      "getHeaderRange this' w' = Inr rng" "getValues w' rng = Inr [c_header this']" by blast
    ultimately show ?thesis using True m log lastRow lastCol by blast
  next
    case False
    with r have t: "this' = ?c" "w' = w1" by simp_all
    from False have "\<not> changeSheetName (Some this) param" by simp
    from sheetInstance_Inr(3)[OF s this] have "w1 = w" by simp
    with t False show ?thesis by (simp add: configured_def)
  qed
qed

theorem update_refresh_iff_changed_witness:
  "changeHeaderRow (Some exController) headerRow5Param
   \<and> setSheetControllerParam (Some exController) headerRow5Param exWorld1 = Inr (exLowered, exWorld4)
   \<and> scanLog exWorld4 = scanLog exWorld1 @ [(UP, (''b1'', ''Sheet1''), 5, 2),
                                            (NEXT, (''b1'', ''Sheet1''), 5, 2)]
   \<and> \<not> (changeBookId (Some exController) keyColumn3Param
          \<or> changeSheetName (Some exController) keyColumn3Param
          \<or> changeHeaderRow (Some exController) keyColumn3Param
          \<or> changeStartColumn (Some exController) keyColumn3Param)
   \<and> setSheetControllerParam (Some exController) keyColumn3Param exWorld1
       = Inr (exController\<lparr>c_keyColumn := 3\<rparr>, exWorld1)
   \<and> c_lastRow (exController\<lparr>c_keyColumn := 3\<rparr>) = c_lastRow exController"
  using update_refresh_iff_changed[OF headerRow5_example]
    update_refresh_iff_changed[OF keyColumn3_example]
    headerRow5_example keyColumn3_example
  by (simp add: changeBookId_def changeSheetName_def changeHeaderRow_iff changeStartColumn_iff
        headerRow5Param_def keyColumn3Param_def exController_def exWorld4_def exWorld1_def)

text \<open>
  Claim C4 (key column tracking). For the constructor (\<open>this = None\<close>) and for every update
  that returns: a key column given in the parameter (a column number, so not 0) becomes the
  key column; if none is given and the start column was set or defaulted by this call, the
  key column becomes the new start column; if none is given and the start column was not
  touched, the key column is what it was. The start column counts as set or defaulted exactly
  when the parameter gives one, or the object is fresh or has none yet.
\<close>

theorem keyColumn_tracking:
  assumes "setSheetControllerParam this param w = Inr (this', w')"
  shows "(\<forall>k. p_keyColumn param = Some k \<and> k \<noteq> 0 \<longrightarrow> c_keyColumn this' = k)
       \<and> (p_keyColumn param = None \<and> changeStartColumn this param \<longrightarrow>
            c_keyColumn this' = c_startColumn this')
       \<and> (p_keyColumn param = None \<and> \<not> changeStartColumn this param \<longrightarrow>
            (\<exists>c. this = Some c \<and> c_keyColumn this' = c_keyColumn c
                 \<and> c_startColumn this' = c_startColumn c))
       \<and> (changeStartColumn this param \<longleftrightarrow>
            truthyN (p_startColumn param) \<or> this = None
            \<or> (\<exists>c. this = Some c \<and> c_startColumn c = 0))"
proof -
  from setSheetControllerParam_config[OF assms] have
    k: "c_keyColumn this' = keyColumnBlock this param (fst (startColumnBlock this param))
                                  (changeStartColumn this param)"
    and sc: "c_startColumn this' = fst (startColumnBlock this param)"
    by auto
  have a: "\<forall>k. p_keyColumn param = Some k \<and> k \<noteq> 0 \<longrightarrow> c_keyColumn this' = k"
    using k by (simp add: keyColumnBlock_def)
  have b: "p_keyColumn param = None \<and> changeStartColumn this param \<longrightarrow>
            c_keyColumn this' = c_startColumn this'"
    using k sc by (simp add: keyColumnBlock_def)
  have c: "p_keyColumn param = None \<and> \<not> changeStartColumn this param \<longrightarrow>
            (\<exists>c. this = Some c \<and> c_keyColumn this' = c_keyColumn c
                 \<and> c_startColumn this' = c_startColumn c)"
  proof (intro impI, elim conjE)
    assume n: "p_keyColumn param = None" and u: "\<not> changeStartColumn this param"
    from u obtain c where c: "this = Some c" by (cases this) (auto simp: changeStartColumn_iff)
    from u c have "startColumnBlock this param = (c_startColumn c, False)"
      by (simp add: startColumnBlock_unchanged)
    with k sc n u c show "\<exists>c. this = Some c \<and> c_keyColumn this' = c_keyColumn c
                 \<and> c_startColumn this' = c_startColumn c"
      by (simp add: keyColumnBlock_def)
  qed
  from a b c changeStartColumn_iff[of this param] show ?thesis by blast
qed


text \<open>
  The spec's example P4 on the example sheet: construction with start column 3 gives key
  column 3, an update to start column 7 gives key column 7, an update of the header row to 2
  leaves it at 7, and an update that names key column 3 sets it to 3.
\<close>

theorem keyColumn_tracking_witness:
  "newSheetController startColumn3Param exWorld
     = Inr (chain1, exWorld\<lparr>scanLog := [(UP, (''b1'', ''Sheet1''), 5, 3),
                                         (NEXT, (''b1'', ''Sheet1''), 1, 3)]\<rparr>)
   \<and> c_keyColumn chain1 = 3
   \<and> setSheetControllerParam (Some chain1) startColumn7Param
         (exWorld\<lparr>scanLog := [(UP, (''b1'', ''Sheet1''), 5, 3),
                                (NEXT, (''b1'', ''Sheet1''), 1, 3)]\<rparr>)
     = Inr (chain2, exWorld\<lparr>scanLog := [(UP, (''b1'', ''Sheet1''), 5, 3),
                                         (NEXT, (''b1'', ''Sheet1''), 1, 3),
                                         (UP, (''b1'', ''Sheet1''), 5, 7),
                                         (NEXT, (''b1'', ''Sheet1''), 1, 7)]\<rparr>)
   \<and> c_keyColumn chain2 = 7
   \<and> setSheetControllerParam (Some chain2) headerRow2Param
         (exWorld\<lparr>scanLog := [(UP, (''b1'', ''Sheet1''), 5, 3),
                                (NEXT, (''b1'', ''Sheet1''), 1, 3),
                                (UP, (''b1'', ''Sheet1''), 5, 7),
                                (NEXT, (''b1'', ''Sheet1''), 1, 7)]\<rparr>)
     = Inr (exMoved, exWorld\<lparr>scanLog := [(UP, (''b1'', ''Sheet1''), 5, 3),
                                          (NEXT, (''b1'', ''Sheet1''), 1, 3),
                                          (UP, (''b1'', ''Sheet1''), 5, 7),
                                          (NEXT, (''b1'', ''Sheet1''), 1, 7),
                                          (UP, (''b1'', ''Sheet1''), 5, 7),
                                          (NEXT, (''b1'', ''Sheet1''), 2, 7)]\<rparr>)
   \<and> c_keyColumn exMoved = 7
   \<and> setSheetControllerParam (Some exMoved) keyColumn3Param exWorld
     = Inr (exMoved\<lparr>c_keyColumn := 3\<rparr>, exWorld)
   \<and> c_keyColumn (exMoved\<lparr>c_keyColumn := 3\<rparr>) = 3"
proof -
  let ?w1 = "exWorld\<lparr>scanLog := [(UP, (''b1'', ''Sheet1''), 5, 3),
                                (NEXT, (''b1'', ''Sheet1''), 1, 3)]\<rparr>"
  let ?w2 = "exWorld\<lparr>scanLog := [(UP, (''b1'', ''Sheet1''), 5, 3),
                                (NEXT, (''b1'', ''Sheet1''), 1, 3),
                                (UP, (''b1'', ''Sheet1''), 5, 7),
                                (NEXT, (''b1'', ''Sheet1''), 1, 7)]\<rparr>"
  let ?w3 = "exWorld\<lparr>scanLog := [(UP, (''b1'', ''Sheet1''), 5, 3),
                                (NEXT, (''b1'', ''Sheet1''), 1, 3),
                                (UP, (''b1'', ''Sheet1''), 5, 7),
                                (NEXT, (''b1'', ''Sheet1''), 1, 7),
                                (UP, (''b1'', ''Sheet1''), 5, 7),
                                (NEXT, (''b1'', ''Sheet1''), 2, 7)]\<rparr>"
  have e1: "setSheetControllerParam None startColumn3Param exWorld = Inr (chain1, ?w1)"
    by (simp add: eval_defs example_defs startColumn3Param_def chain1_def)
  have e2: "setSheetControllerParam (Some chain1) startColumn7Param ?w1 = Inr (chain2, ?w2)"
    by (simp add: eval_defs example_defs startColumn7Param_def chain1_def chain2_def)
  have e3: "setSheetControllerParam (Some chain2) headerRow2Param ?w2 = Inr (exMoved, ?w3)"
    by (simp add: eval_defs example_defs headerRow2Param_def chain2_def exMoved_def)
  have e4: "setSheetControllerParam (Some exMoved) keyColumn3Param exWorld
              = Inr (exMoved\<lparr>c_keyColumn := 3\<rparr>, exWorld)"
    by (simp add: eval_defs example_defs keyColumn3Param_def exMoved_def)
  have k1: "c_keyColumn chain1 = 3"
    using keyColumn_tracking[OF e1]
    by (simp add: startColumn3Param_def chain1_def)
  have k2: "c_keyColumn chain2 = 7"
    using keyColumn_tracking[OF e2]
    by (simp add: startColumn7Param_def chain2_def)
  have k3: "c_keyColumn exMoved = 7"
    using keyColumn_tracking[OF e3]
    by (simp add: headerRow2Param_def chain2_def changeStartColumn_iff)
  have k4: "c_keyColumn (exMoved\<lparr>c_keyColumn := 3\<rparr>) = 3"
    using keyColumn_tracking[OF e4]
    by (simp add: keyColumn3Param_def)
  from e1 e2 e3 e4 k1 k2 k3 k4 show ?thesis
    by (simp add: newSheetController_def)
qed

text \<open>
  Claim C3 says that an update which changes the spreadsheet or the sheet name and omits the
  start column (or the header row) resets it to the default 1. The code does not: the
  default is taken only when the property has never been set. Here the controller built with
  header row 2 and start column 2 is re-bound to spreadsheet \<open>b2\<close>; both stay 2.
\<close>

theorem update_fills_default_counterexample:
  "newSheetController exParam exWorld = Inr (exController, exWorld1)
   \<and> setSheetControllerParam (Some exController) rebindParam exWorld1 = Inr (exRebound, exWorld2)
   \<and> c_book exController = ''b1'' \<and> c_book exRebound = ''b2''
   \<and> p_startColumn rebindParam = None \<and> p_headerRow rebindParam = None
   \<and> c_startColumn exController = 2 \<and> c_startColumn exRebound = 2
   \<and> c_headerRow exController = 2 \<and> c_headerRow exRebound = 2"
  using constructor_example rebind_example
  by (simp add: exController_def exRebound_def rebindParam_def)

text \<open>
  Claim C3, amended. For every controller that exists at run time, an update that omits the
  start column keeps the start column, and one that omits the header row keeps the header
  row and the data start row, whether or not the update changes the spreadsheet or the sheet
  name.
\<close>

theorem update_keeps_omitted_startColumn:
  assumes "reachable this"
    and "setSheetControllerParam (Some this) param w = Inr (this', w')"
  shows "(\<not> truthyN (p_startColumn param) \<longrightarrow> c_startColumn this' = c_startColumn this)
       \<and> (\<not> truthyN (p_headerRow param) \<longrightarrow>
            c_headerRow this' = c_headerRow this \<and> c_dataStartRow this' = c_dataStartRow this)"
proof -
  from setSheetControllerParam_config[OF assms(2)] have
    f: "c_headerRow this' = fst (headerRowBlock (Some this) param)"
       "c_dataStartRow this' = fst (snd (headerRowBlock (Some this) param))"
       "c_startColumn this' = fst (startColumnBlock (Some this) param)"
    by auto
  from reachable_nonzero[OF assms(1)] f show ?thesis
    by (simp add: headerRowBlock_def startColumnBlock_def)
qed

theorem update_keeps_omitted_startColumn_witness:
  "reachable exController
   \<and> setSheetControllerParam (Some exController) rebindParam exWorld1 = Inr (exRebound, exWorld2)
   \<and> \<not> truthyN (p_startColumn rebindParam) \<and> \<not> truthyN (p_headerRow rebindParam)
   \<and> c_startColumn exRebound = c_startColumn exController
   \<and> c_headerRow exRebound = c_headerRow exController
   \<and> c_dataStartRow exRebound = c_dataStartRow exController"
  using update_keeps_omitted_startColumn[OF reachable_exController rebind_example]
    reachable_exController rebind_example
  by (simp add: rebindParam_def)

text \<open>
  Claim C7 says that every configuration field omitted from an update keeps its value. The
  key column does not when the start column is given: the update \<open>{startColumn: 7}\<close> of
  the example controller omits the key column, which nevertheless moves from 2 to 7.
\<close>

theorem merge_on_unset_counterexample:
  "newSheetController exParam exWorld = Inr (exController, exWorld1)
   \<and> setSheetControllerParam (Some exController) startColumn7Param exWorld1 = Inr (exMoved, exWorld3)
   \<and> p_bookId startColumn7Param = None \<and> p_sheetName startColumn7Param = None
   \<and> p_keyColumn startColumn7Param = None
   \<and> c_keyColumn exController = 2 \<and> c_keyColumn exMoved = 7"
  using constructor_example startColumn7_example
  by (simp add: exController_def exMoved_def startColumn7Param_def)

text \<open>
  Claim C7, amended. For every controller that exists at run time and every update that
  names neither a spreadsheet nor a sheet: spreadsheet, sheet name and sheet stay as they
  were; an omitted header row keeps header row and data start row; an omitted start column
  keeps the start column; an omitted key column keeps the key column when the start column is
  omitted too, and becomes the new start column otherwise. In particular
  \<open>update({headerRow: 5})\<close> leaves start column, key column, spreadsheet and sheet
  unchanged.
\<close>

theorem merge_on_unset:
  assumes "reachable this"
    and "setSheetControllerParam (Some this) param w = Inr (this', w')"
    and "\<not> truthyS (p_bookId param)" and "\<not> truthyS (p_sheetName param)"
  shows "c_book this' = c_book this \<and> c_sheetName this' = c_sheetName this
       \<and> c_sheet this' = c_sheet this
       \<and> (\<not> truthyN (p_headerRow param) \<longrightarrow>
            c_headerRow this' = c_headerRow this \<and> c_dataStartRow this' = c_dataStartRow this)
       \<and> (\<not> truthyN (p_startColumn param) \<longrightarrow> c_startColumn this' = c_startColumn this)
       \<and> (\<not> truthyN (p_keyColumn param) \<and> \<not> truthyN (p_startColumn param) \<longrightarrow>
            c_keyColumn this' = c_keyColumn this)
       \<and> (\<not> truthyN (p_keyColumn param) \<and> truthyN (p_startColumn param) \<longrightarrow>
            c_keyColumn this' = c_startColumn this')"
proof -
  from setSheetControllerParam_config[OF assms(2)] obtain book sn sh w1 where
    b: "bookInstance (Some this) param w = Inr (book, changeBookId (Some this) param)"
    and s: "sheetInstance (Some this) param book (changeBookId (Some this) param) w
              = Inr ((sn, sh, changeSheetName (Some this) param), w1)"
    and f: "c_book this' = book" "c_sheetName this' = sn" "c_sheet this' = sh"
       "c_headerRow this' = fst (headerRowBlock (Some this) param)"
       "c_dataStartRow this' = fst (snd (headerRowBlock (Some this) param))"
       "c_startColumn this' = fst (startColumnBlock (Some this) param)"
       "c_keyColumn this' = keyColumnBlock (Some this) param
                              (fst (startColumnBlock (Some this) param))
                              (changeStartColumn (Some this) param)"
    by blast
  from assms(3,4) have nc: "\<not> changeBookId (Some this) param"
    "\<not> changeSheetName (Some this) param"
    by (simp_all add: changeBookId_def changeSheetName_def)
  from bookInstance_Inr(2)[OF b assms(3)] have bk: "book = c_book this" by simp
  from sheetInstance_Inr(3)[OF s nc(2)] have sh: "sn = c_sheetName this" "sh = c_sheet this"
    by simp_all
  from reachable_nonzero[OF assms(1)] f bk sh show ?thesis
    by (simp add: headerRowBlock_def startColumnBlock_def keyColumnBlock_def
          changeStartColumn_def)
qed

theorem merge_on_unset_witness:
  "reachable exController
   \<and> setSheetControllerParam (Some exController) headerRow5Param exWorld1 = Inr (exLowered, exWorld4)
   \<and> \<not> truthyS (p_bookId headerRow5Param) \<and> \<not> truthyS (p_sheetName headerRow5Param)
   \<and> \<not> truthyN (p_startColumn headerRow5Param) \<and> \<not> truthyN (p_keyColumn headerRow5Param)
   \<and> c_headerRow exLowered = 5
   \<and> c_startColumn exLowered = c_startColumn exController
   \<and> c_keyColumn exLowered = c_keyColumn exController
   \<and> c_book exLowered = c_book exController
   \<and> c_sheet exLowered = c_sheet exController
   \<and> setSheetControllerParam (Some exController) startColumn7Param exWorld1 = Inr (exMoved, exWorld3)
   \<and> \<not> truthyS (p_bookId startColumn7Param) \<and> \<not> truthyS (p_sheetName startColumn7Param)
   \<and> \<not> truthyN (p_headerRow startColumn7Param) \<and> \<not> truthyN (p_keyColumn startColumn7Param)
   \<and> truthyN (p_startColumn startColumn7Param)
   \<and> c_headerRow exMoved = c_headerRow exController
   \<and> c_dataStartRow exMoved = c_dataStartRow exController
   \<and> c_keyColumn exMoved = c_startColumn exMoved"
  using merge_on_unset[OF reachable_exController headerRow5_example]
    merge_on_unset[OF reachable_exController startColumn7_example]
    reachable_exController headerRow5_example startColumn7_example
  by (simp add: headerRow5Param_def startColumn7Param_def exLowered_def exController_def)

section \<open>Writing the header\<close>

text \<open>
  Claim C8 says that \<open>outputHeader\<close> writes its argument and then refreshes the column
  pair for every array. For the empty array it does neither: \<open>getRange\<close> turns the
  column count 0 into 1, the platform rejects the empty row for the one-cell range, and the
  exception leaves the method before \<open>reflashLastColumn\<close>.
\<close>

theorem outputHeader_empty_counterexample:
  "outputHeader exController exWorld1 [] = Inl PlatformError"
  by (simp add: outputHeader_def getRange_def orOne_def sheetGetRange_def setValues_def
        exController_def exWorld1_def exWorld_def exBooks_def lookupSheet_def exSheet_def)

text \<open>
  Claim C8, amended. For every non-empty array whose cells lie inside the sheet,
  \<open>outputHeader\<close> returns; it has written the array into the header row from the start
  column on (and nothing else), has then issued exactly one scan, the rightward one, and has
  recomputed last column, column count and header from the sheet as written; the cached last
  row and row count, and the configuration, are what they were.
\<close>

theorem outputHeader_writes_and_refreshes_columns:
  assumes ne: "headerArray \<noteq> []"
    and sh: "lookupSheet w (c_sheet this) = Inr sh"
    and bd: "1 \<le> c_headerRow this" "c_headerRow this \<le> maxRows sh" "1 \<le> c_startColumn this"
            "c_startColumn this + int (length headerArray) - 1 \<le> maxColumns sh"
  shows "\<exists>rng this' w' sh'.
           outputHeader this w headerArray = Inr (rng, this', w')
         \<and> rng = \<lparr>rngSheet = c_sheet this, rngRow = c_headerRow this,
                   rngColumn = c_startColumn this, rngNumRows = 1,
                   rngNumColumns = int (length headerArray)\<rparr>
         \<and> lookupSheet w' (c_sheet this) = Inr sh'
         \<and> maxRows sh' = maxRows sh \<and> maxColumns sh' = maxColumns sh
         \<and> (\<forall>r c. cells sh' r c =
               (if r = c_headerRow this \<and> c_startColumn this \<le> c
                   \<and> c < c_startColumn this + int (length headerArray)
                then headerArray ! nat (c - c_startColumn this) else cells sh r c))
         \<and> scanLog w' = scanLog w @ [(NEXT, c_sheet this, c_headerRow this, c_startColumn this)]
         \<and> c_lastRow this' = c_lastRow this \<and> c_rowNum this' = c_rowNum this
         \<and> c_headerRow this' = c_headerRow this \<and> c_dataStartRow this' = c_dataStartRow this
         \<and> c_startColumn this' = c_startColumn this \<and> c_keyColumn this' = c_keyColumn this
         \<and> c_sheet this' = c_sheet this
         \<and> (\<exists>wc. getLastColumn this' w' = Inr (c_lastColumn this', wc))
         \<and> c_columnNum this' = c_lastColumn this' - c_startColumn this' + 1
         \<and> (\<exists>hr. getHeaderRange this' w' = Inr hr \<and> getValues w' hr = Inr [c_header this'])"
proof -
  let ?rng = "\<lparr>rngSheet = c_sheet this, rngRow = c_headerRow this,
                   rngColumn = c_startColumn this, rngNumRows = 1,
                   rngNumColumns = int (length headerArray)\<rparr>"
  let ?sh' = "sh\<lparr>cells := writeCells ?rng [headerArray] (cells sh)\<rparr>"
  let ?w1 = "putSheet w (c_sheet this) ?sh'"
  let ?w' = "?w1\<lparr>scanLog := scanLog ?w1 @ [(NEXT, c_sheet this, c_headerRow this, c_startColumn this)]\<rparr>"
  have len: "1 \<le> int (length headerArray)" using ne by (simp add: Suc_le_eq)
  have len0: "int (length headerArray) \<noteq> 0" using ne by simp
  have g: "getRange this w \<lparr>a_startRow = c_headerRow this, a_startColumn = c_startColumn this,
                             a_rowNum = None, a_columnNum = Some (int (length headerArray))\<rparr> = Inr ?rng"
    using sh bd len len0
    by (simp add: getRange_def orOne_def sheetGetRange_def Let_def Suc_le_eq)
  have sv: "setValues w ?rng [headerArray] = Inr ?w1"
    by (rule setValues_row[OF sh])
  have l1: "lookupSheet ?w1 (c_sheet this) = Inr ?sh'"
    by (rule lookupSheet_putSheet[OF sh])
  have "c_startColumn this \<le> maxColumns ?sh'" using bd len by simp
  with reflashLastColumn_succeeds[OF l1] bd obtain this' where
    r: "reflashLastColumn this ?w1 = Inr (this', ?w')" by auto
  have o: "outputHeader this w headerArray = Inr (?rng, this', ?w')"
    using g sv r by (simp add: outputHeader_def)
  note f = reflashLastColumn_fields[OF r]
  from reflashLastColumn_Inr[OF r] obtain lc where
    g2: "getLastColumn this ?w1 = Inr (lc, ?w')" by blast
  have lc: "c_lastColumn this' = lc"
    using r g2 by (auto simp: reflashLastColumn_def bindE_eq_Inr Let_def)
  have e2: "getLastColumn this' = getLastColumn this"
    by (rule ext) (simp add: getLastColumn_def f)
  have "books ?w' = books ?w1" by simp
  from getLastColumn_same_books[OF g2 this] obtain wc where
    gc: "getLastColumn this' ?w' = Inr (c_lastColumn this', wc)" by (auto simp: e2 lc)
  from reflashLastColumn_frame[OF r] have
    cn: "c_columnNum this' = c_lastColumn this' - c_startColumn this' + 1" by auto
  from reflashLastColumn_header[OF r] obtain hr where
    hr: "getHeaderRange this' ?w' = Inr hr" "getValues ?w' hr = Inr [c_header this']" by blast
  have l': "lookupSheet ?w' (c_sheet this) = Inr ?sh'" using l1 by simp
  have cells: "\<forall>r c. cells ?sh' r c =
               (if r = c_headerRow this \<and> c_startColumn this \<le> c
                   \<and> c < c_startColumn this + int (length headerArray)
                then headerArray ! nat (c - c_startColumn this) else cells sh r c)"
    by (simp add: writeCells_row)
  have log: "scanLog ?w' = scanLog w @ [(NEXT, c_sheet this, c_headerRow this, c_startColumn this)]"
    by simp
  have dims: "maxRows ?sh' = maxRows sh \<and> maxColumns ?sh' = maxColumns sh" by simp
  show ?thesis
    apply (rule exI[of _ ?rng], rule exI[of _ this'], rule exI[of _ ?w'], rule exI[of _ ?sh'])
    using o l' dims cells log f gc cn hr by blast
qed

theorem outputHeader_writes_and_refreshes_columns_witness:
  "[Str ''A'', Str ''B''] \<noteq> []
   \<and> lookupSheet exWorld1 (c_sheet exController) = Inr exSheet
   \<and> 1 \<le> c_headerRow exController \<and> c_headerRow exController \<le> maxRows exSheet
   \<and> 1 \<le> c_startColumn exController
   \<and> c_startColumn exController + int (length [Str ''A'', Str ''B'']) - 1 \<le> maxColumns exSheet
   \<and> (\<exists>rng this' w'.
         outputHeader exController exWorld1 [Str ''A'', Str ''B''] = Inr (rng, this', w')
         \<and> c_lastRow this' = c_lastRow exController \<and> c_rowNum this' = c_rowNum exController
         \<and> scanLog w' = scanLog exWorld1 @ [(NEXT, (''b1'', ''Sheet1''), 2, 2)])"
proof -
  have l: "lookupSheet exWorld1 (c_sheet exController) = Inr exSheet"
    by (simp add: exWorld1_def exController_def)
  have b: "1 \<le> c_headerRow exController" "c_headerRow exController \<le> maxRows exSheet"
    "1 \<le> c_startColumn exController"
    "c_startColumn exController + int (length [Str ''A'', Str ''B'']) - 1 \<le> maxColumns exSheet"
    by (simp_all add: exController_def exSheet_def)
  have n: "[Str ''A'', Str ''B''] \<noteq> []" by simp
  from outputHeader_writes_and_refreshes_columns[OF n l b]
  have "\<exists>rng this' w'.
         outputHeader exController exWorld1 [Str ''A'', Str ''B''] = Inr (rng, this', w')
         \<and> c_lastRow this' = c_lastRow exController \<and> c_rowNum this' = c_rowNum exController
         \<and> scanLog w' = scanLog exWorld1 @ [(NEXT, (''b1'', ''Sheet1''), 2, 2)]"
    by (auto simp: exController_def)
  with l b n show ?thesis by blast
qed

section \<open>The last row\<close>

text \<open>
  What \<open>getLastRow\<close> returns when the key column is filled from row 1 down to the last
  physical row: the jump runs through the whole column to row 1, and the correction to the
  last physical row is made exactly when the value in the last row is truthy.
\<close>

lemma runLength_all: "(\<forall>b \<in> set bs. b) \<Longrightarrow> runLength bs = length bs"
  by (induction bs) auto

lemma jumpSteps_all: "(\<forall>b \<in> set bs. b) \<Longrightarrow> jumpSteps True bs = length bs"
  using runLength_all[of bs] by (cases bs) (auto simp: jumpSteps_def)

lemma getLastRow_filled_column:
  assumes sh: "lookupSheet w (c_sheet this) = Inr sh"
    and bd: "1 \<le> maxRows sh" "1 \<le> c_keyColumn this" "c_keyColumn this \<le> maxColumns sh"
            "1 \<le> c_headerRow this"
    and filled: "\<And>r. 1 \<le> r \<Longrightarrow> r \<le> maxRows sh \<Longrightarrow> hasData (cells sh r (c_keyColumn this))"
  shows "getLastRow this w =
           Inr (if truthy (cells sh (maxRows sh) (c_keyColumn this)) then maxRows sh else 1,
                w\<lparr>scanLog := scanLog w @ [(UP, c_sheet this, maxRows sh, c_keyColumn this)]\<rparr>)"
proof -
  let ?ahead = "cellsAhead sh UP (maxRows sh) (c_keyColumn this)"
  have "\<forall>b \<in> set ?ahead. b"
    using filled by (auto simp: cellsAhead_def)
  then have "jumpSteps True ?ahead = length ?ahead" by (rule jumpSteps_all)
  moreover have "hasData (cells sh (maxRows sh) (c_keyColumn this))"
    using filled bd by simp
  ultimately have "jumpSteps (hasData (cells sh (maxRows sh) (c_keyColumn this))) ?ahead
                     = nat (maxRows sh) - 1"
    by (simp add: length_cellsAhead_UP)
  then have "maxRows sh - int (jumpSteps (hasData (cells sh (maxRows sh) (c_keyColumn this))) ?ahead) = 1"
    using bd by simp
  with bd show ?thesis by (simp add: getLastRow_lookup[OF sh])
qed

text \<open>
  Claim C2 (degenerate last row). The source tests \<open>baseCell.getValue()\<close> for truthiness,
  so a last cell that holds the number 0 (or \<open>false\<close>) counts as holding no value. In the
  sheet below the key column is filled from the header in row 1 down to the last row 3, and
  the two data cells hold 0: the upward jump runs through the filled cells to row 1, the
  correction is skipped, and the last row is reported as 1 (no data rows) instead of 3.
\<close>

theorem getLastRow_zero_in_last_row:
  "newSheetController zeroParam zeroWorld
     = Inr (zeroController, zeroWorld\<lparr>scanLog := [(UP, (''b1'', ''Sheet1''), 3, 1),
                                                  (NEXT, (''b1'', ''Sheet1''), 1, 1)]\<rparr>)
   \<and> maxRows zeroSheet = 3
   \<and> hasData (cells zeroSheet 1 1) \<and> hasData (cells zeroSheet 2 1) \<and> hasData (cells zeroSheet 3 1)
   \<and> getLastRow zeroController zeroWorld
       = Inr (1, zeroWorld\<lparr>scanLog := [(UP, (''b1'', ''Sheet1''), 3, 1)]\<rparr>)
   \<and> c_lastRow zeroController = 1 \<and> c_rowNum zeroController = 0"
  using zero_constructor_example
  by (simp add: eval_defs zeroWorld_def zeroBooks_def zeroSheet_def zeroCells_def
        zeroController_def)

end
